theory Spec2Isabelle
  imports Main "HOL-Library.Sublist"
begin

section \<open>Strings of the Go library\<close>

text \<open>
  The command under study is \<^verbatim>\<open>jx step create task\<close>
  (\<^verbatim>\<open>pkg/jx/cmd/step_create_task.go\<close>). A Go string is a sequence of bytes and is
  modelled as a \<open>string\<close>, a list of 8-bit characters.

  \<^verbatim>\<open>strings.Replace(s, old, new, n)\<close> replaces the first \<open>n\<close> non-overlapping
  occurrences of \<open>old\<close>, found from left to right, and all of them when \<open>n\<close> is
  negative. \<open>Replace_scan\<close> is the scan for a non-empty \<open>old\<close>;
  \<open>Replace_empty\<close> is the case of an empty \<open>old\<close>, where Go inserts \<open>new\<close>
  before every character and at the end (every byte counts as one character here; the
  program never calls it that way).
\<close>

function Replace_scan :: "string \<Rightarrow> string \<Rightarrow> int \<Rightarrow> string \<Rightarrow> string" where
  "Replace_scan old new n [] = []"
| "Replace_scan old new n (c # cs) =
     (if n \<noteq> 0 \<and> old \<noteq> [] \<and> prefix old (c # cs)
      then new @ Replace_scan old new (n - 1) (drop (length old) (c # cs))
      else c # Replace_scan old new n cs)"
  by pat_completeness auto

termination
  by (relation "measure (\<lambda>(old, new, n, s). length s)") (auto simp: neq_Nil_conv)

fun Replace_empty :: "string \<Rightarrow> int \<Rightarrow> string \<Rightarrow> string" where
  "Replace_empty new n [] = (if n \<noteq> 0 then new else [])"
| "Replace_empty new n (c # cs) =
     (if n \<noteq> 0 then new @ c # Replace_empty new (n - 1) cs else c # cs)"

definition Replace :: "string \<Rightarrow> string \<Rightarrow> string \<Rightarrow> int \<Rightarrow> string" where
  "Replace s old new n =
     (if old = new \<or> n = 0 then s
      else if old = [] then Replace_empty new n s
      else Replace_scan old new n s)"

section \<open>Pipeline steps and their command text\<close>

text \<open>
  Modelled from the spec: the declaration of \<^verbatim>\<open>jenkinsfile.PipelineStep\<close> is not
  among the sources at hand. A step is a tree node with \<open>Name\<close>, \<open>Command\<close>,
  \<open>Dir\<close>, \<open>Container\<close>, \<open>When\<close> and its ordered child \<open>Steps\<close>. The
  children are pointers in the source (\<^verbatim>\<open>[]*PipelineStep\<close>), and
  \<open>invokeSteps\<close> tests them for \<^verbatim>\<open>nil\<close>: a child is a
  \<open>PipelineStep option\<close>.
\<close>

datatype PipelineStep = PipelineStep
  (step_Name: string) (step_Command: string) (step_Dir: string)
  (step_Container: string) (step_When: string)
  (step_Steps: "PipelineStep option list")

text \<open>
  \<open>replaceCommandText\<close> reads nothing of its receiver; the model takes the step only.
  The backslash is \<open>CHR 0x5C\<close>.
\<close>

definition replaceCommandText :: "PipelineStep \<Rightarrow> string" where
  "replaceCommandText step =
     (let answer = Replace (step_Command step) [CHR 0x5C, CHR ''$''] ''$'' (- 1);
          answer = Replace answer ''export VERSION=`cat VERSION` && '' '''' 1
      in foldl (\<lambda>answer text. Replace answer text ''${VERSION}'' (- 1)) answer
           [''$(cat VERSION)'', ''$(cat ../VERSION)'', ''$(cat ../../VERSION)''])"

text \<open>The three texts the loop of \<open>replaceCommandText\<close> ranges over.\<close>

definition versionTexts :: "string list" where
  "versionTexts = [''$(cat VERSION)'', ''$(cat ../VERSION)'', ''$(cat ../../VERSION)'']"

subsection \<open>Prefixes, case, white space, numbers and paths\<close>

definition HasPrefix :: "string \<Rightarrow> string \<Rightarrow> bool" where
  "HasPrefix s p = prefix p s"

definition TrimPrefix :: "string \<Rightarrow> string \<Rightarrow> string" where
  "TrimPrefix s p = (if HasPrefix s p then drop (length p) s else s)"

text \<open>
  \<^verbatim>\<open>strings.ToUpper\<close>. A string of ASCII bytes only is mapped byte by byte, the
  letters \<^verbatim>\<open>a\<close> to \<^verbatim>\<open>z\<close> to \<^verbatim>\<open>A\<close> to \<^verbatim>\<open>Z\<close>. A string with a byte
  outside ASCII goes through \<^verbatim>\<open>strings.Map(unicode.ToUpper, s)\<close>, which follows the
  case tables of Unicode (it maps U+017F to \<^verbatim>\<open>S\<close> and U+0131 to \<^verbatim>\<open>I\<close>, for
  instance); that mapping is the parameter \<open>mapUpper\<close>, and nothing is assumed of it.
\<close>

definition ToUpper :: "(string \<Rightarrow> string) \<Rightarrow> string \<Rightarrow> string" where
  "ToUpper mapUpper s =
     (if list_all (\<lambda>c. of_char c < (128 :: nat)) s
      then map (\<lambda>c. if (97 :: nat) \<le> of_char c \<and> of_char c \<le> (122 :: nat)
                      then char_of (of_char c - (32 :: nat)) else c) s
      else mapUpper s)"

text \<open>
  \<^verbatim>\<open>strings.TrimSpace\<close> removes leading and trailing white space as Unicode
  defines it. \<open>spaceSeqs\<close> lists the UTF-8 encodings of the white-space code points:
  the six of ASCII, U+0085, U+00A0, U+1680, U+2000 to U+200A, U+2028, U+2029, U+202F,
  U+205F and U+3000. \<open>trimLeft\<close> strips such encodings from the front for as long as
  there is one; the end is trimmed on the reversed string.
\<close>

definition spaceSeqs :: "string list" where
  "spaceSeqs =
     [[CHR 0x09], [CHR 0x0A], [CHR 0x0B], [CHR 0x0C], [CHR 0x0D], [CHR 0x20],
      [CHR 0xC2, CHR 0x85], [CHR 0xC2, CHR 0xA0], [CHR 0xE1, CHR 0x9A, CHR 0x80],
      [CHR 0xE2, CHR 0x80, CHR 0x80], [CHR 0xE2, CHR 0x80, CHR 0x81],
      [CHR 0xE2, CHR 0x80, CHR 0x82], [CHR 0xE2, CHR 0x80, CHR 0x83],
      [CHR 0xE2, CHR 0x80, CHR 0x84], [CHR 0xE2, CHR 0x80, CHR 0x85],
      [CHR 0xE2, CHR 0x80, CHR 0x86], [CHR 0xE2, CHR 0x80, CHR 0x87],
      [CHR 0xE2, CHR 0x80, CHR 0x88], [CHR 0xE2, CHR 0x80, CHR 0x89],
      [CHR 0xE2, CHR 0x80, CHR 0x8A], [CHR 0xE2, CHR 0x80, CHR 0xA8],
      [CHR 0xE2, CHR 0x80, CHR 0xA9], [CHR 0xE2, CHR 0x80, CHR 0xAF],
      [CHR 0xE2, CHR 0x81, CHR 0x9F], [CHR 0xE3, CHR 0x80, CHR 0x80]]"

definition spaceWidth :: "string list \<Rightarrow> string \<Rightarrow> nat" where
  "spaceWidth seqs s = (case find (\<lambda>p. prefix p s) seqs of None \<Rightarrow> 0 | Some p \<Rightarrow> length p)"

function trimLeft :: "string list \<Rightarrow> string \<Rightarrow> string" where
  "trimLeft seqs s =
     (if spaceWidth seqs s = 0 then s else trimLeft seqs (drop (spaceWidth seqs s) s))"
  by pat_completeness auto

termination
proof (relation "measure (\<lambda>(seqs, s). length s)")
  show "wf (measure (\<lambda>(seqs, s). length s))" by simp
next
  fix seqs :: "string list" and s :: string
  assume w: "spaceWidth seqs s \<noteq> 0"
  then obtain p where "find (\<lambda>p. prefix p s) seqs = Some p" and "length p \<noteq> 0"
    by (auto simp: spaceWidth_def split: option.splits)
  then have "prefix p s" and "p \<noteq> []" by (auto simp: find_Some_iff)
  then have "s \<noteq> []" by auto
  with w show "((seqs, drop (spaceWidth seqs s) s), (seqs, s)) \<in> measure (\<lambda>(seqs, s). length s)"
    by simp
qed

declare trimLeft.simps [simp del]

definition TrimSpace :: "string \<Rightarrow> string" where
  "TrimSpace s = rev (trimLeft (map rev spaceSeqs) (rev (trimLeft spaceSeqs s)))"

text \<open>\<^verbatim>\<open>strconv.Itoa\<close>: the decimal digits of an integer, with a sign when negative.\<close>

function Itoa_nat :: "nat \<Rightarrow> string" where
  "Itoa_nat n =
     (if n < 10 then [''0123456789'' ! n]
      else Itoa_nat (n div 10) @ [''0123456789'' ! (n mod 10)])"
  by pat_completeness auto

termination
  by (relation "measure id") auto

declare Itoa_nat.simps [simp del]

definition Itoa :: "int \<Rightarrow> string" where
  "Itoa i = (if i < 0 then CHR ''-'' # Itoa_nat (nat (- i)) else Itoa_nat (nat i))"

text \<open>
  \<^verbatim>\<open>filepath.Clean\<close>, \<^verbatim>\<open>filepath.Join\<close> and \<^verbatim>\<open>filepath.IsAbs\<close> on a
  system whose separator is the slash. \<open>Clean\<close> follows the rules of its
  documentation on the elements between slashes: empty elements and \<open>.\<close> are dropped,
  \<open>..\<close> removes the element before it, is dropped at the root and is kept in front of
  a relative path; the empty result is \<open>.\<close>. \<open>Join\<close> ignores leading empty
  elements and cleans the rest joined by slashes.
\<close>

fun splitOn :: "char \<Rightarrow> string \<Rightarrow> string list" where
  "splitOn sep [] = [[]]"
| "splitOn sep (c # cs) =
     (if c = sep then [] # splitOn sep cs
      else case splitOn sep cs of [] \<Rightarrow> [[c]] | e # es \<Rightarrow> (c # e) # es)"

fun joinWith :: "string \<Rightarrow> string list \<Rightarrow> string" where
  "joinWith sep [] = []"
| "joinWith sep [e] = e"
| "joinWith sep (e # es) = e @ sep @ joinWith sep es"

fun cleanElems :: "bool \<Rightarrow> string list \<Rightarrow> string list \<Rightarrow> string list" where
  "cleanElems rooted st [] = rev st"
| "cleanElems rooted st (e # es) =
     (if e = [] \<or> e = ''.'' then cleanElems rooted st es
      else if e = ''..'' then
        (case st of
           [] \<Rightarrow> if rooted then cleanElems rooted [] es else cleanElems rooted [''..''] es
         | t # ts \<Rightarrow> if t = ''..'' then cleanElems rooted (''..'' # st) es
                     else cleanElems rooted ts es)
      else cleanElems rooted (e # st) es)"

definition Clean :: "string \<Rightarrow> string" where
  "Clean path =
     (if path = [] then ''.''
      else let rooted = (hd path = CHR ''/'');
               body = joinWith ''/'' (cleanElems rooted [] (splitOn CHR ''/'' path))
           in if rooted then CHR ''/'' # body else if body = [] then ''.'' else body)"

definition Join :: "string list \<Rightarrow> string" where
  "Join elem =
     (case dropWhile (\<lambda>e. e = []) elem of [] \<Rightarrow> [] | es \<Rightarrow> Clean (joinWith ''/'' es))"

definition IsAbs :: "string \<Rightarrow> bool" where
  "IsAbs path = HasPrefix path ''/''"

section \<open>Kubernetes and Tekton objects\<close>

text \<open>
  The objects of the Kubernetes and Tekton libraries, each with the fields this command
  reads or writes. A field of a nested struct of the source is a field of the record
  (\<^verbatim>\<open>task.Spec.Steps\<close> is \<open>t_Steps\<close>, \<^verbatim>\<open>run.Spec.PipelineRef.Name\<close> is
  \<open>run_PipelineRefName\<close>); label maps are maps from strings to strings.
\<close>

record EnvVar =
  ev_Name :: string
  ev_Value :: string

record VolumeMount =
  vm_Name :: string
  vm_MountPath :: string
  vm_ReadOnly :: bool

datatype VolumeSource =
    DownwardAPI "(string \<times> string) list"
  | OtherSource string

record Volume =
  vol_Name :: string
  vol_Source :: VolumeSource

record Container =
  c_Name :: string
  c_Image :: string
  c_Command :: "string list"
  c_Args :: "string list"
  c_WorkingDir :: string
  c_Env :: "EnvVar list"
  c_VolumeMounts :: "VolumeMount list"
  c_Stdin :: bool
  c_TTY :: bool

record Pod =
  pod_Containers :: "Container list"
  pod_Volumes :: "Volume list"

record Param =
  p_Name :: string
  p_Value :: string

record TaskParam =
  tp_Name :: string
  tp_Description :: string
  tp_Default :: string

record TaskResource =
  tr_Name :: string
  tr_Type :: string
  tr_TargetPath :: string

record Inputs =
  in_Resources :: "TaskResource list"
  in_Params :: "TaskParam list"

record Task =
  t_APIVersion :: string
  t_Kind :: string
  t_Name :: string
  t_Namespace :: string
  t_Labels :: "string \<rightharpoonup> string"
  t_Steps :: "Container list"
  t_Volumes :: "Volume list"
  t_Inputs :: "Inputs option"

record PipelineResource =
  r_APIVersion :: string
  r_Kind :: string
  r_Name :: string
  r_Labels :: "string \<rightharpoonup> string"
  r_Type :: string
  r_Params :: "Param list"

record PipelineDeclaredResource =
  dr_Name :: string
  dr_Type :: string

record PipelineTaskInputResource =
  ir_Name :: string
  ir_Resource :: string

record TaskRef =
  ref_Name :: string
  ref_Kind :: string
  ref_APIVersion :: string

record PipelineTask =
  pt_Name :: string
  pt_Inputs :: "PipelineTaskInputResource list"
  pt_TaskRef :: TaskRef
  pt_Params :: "Param list"

record Pipeline =
  pl_APIVersion :: string
  pl_Kind :: string
  pl_Name :: string
  pl_Namespace :: string
  pl_UID :: string
  pl_Resources :: "PipelineDeclaredResource list"
  pl_Tasks :: "PipelineTask list"

record OwnerReference =
  or_APIVersion :: string
  or_Kind :: string
  or_Name :: string
  or_UID :: string

record PipelineResourceBinding =
  rb_Name :: string
  rb_RefName :: string
  rb_RefAPIVersion :: string

record PipelineRun =
  run_APIVersion :: string
  run_Kind :: string
  run_Name :: string
  run_OwnerReferences :: "OwnerReference list"
  run_Labels :: "string \<rightharpoonup> string"
  run_ServiceAccount :: string
  run_Trigger :: string
  run_PipelineRefName :: string
  run_PipelineRefAPIVersion :: string
  run_Resources :: "PipelineResourceBinding list"
  run_Params :: "Param list"

record PipelineStructure =
  st_Name :: string
  st_PipelineRef :: "string option"
  st_PipelineRunRef :: "string option"
  st_OwnerReferences :: "OwnerReference list"

text \<open>
  \<^verbatim>\<open>gits.GitRepository\<close>: the results of its methods \<^verbatim>\<open>HttpsURL()\<close> and
  \<^verbatim>\<open>HttpCloneURL()\<close>, whose code is not among the sources at hand, are fields.
\<close>

record GitRepository =
  git_Name :: string
  git_Organisation :: string
  git_CloneURL :: string
  git_HttpsURL :: string
  git_HttpCloneURL :: string

section \<open>Errors\<close>

text \<open>
  The errors of the command. \<open>Panic\<close> is a run-time panic of Go (a nil pointer
  dereference, a slice bound out of range). The other constructors stand for the error
  values the code builds:
  \<^item> \<open>UnknownPipelineKind k\<close>: \<^verbatim>\<open>Unknown pipeline kind k. Supported values are ...\<close>
  \<^item> \<open>NoContainers n\<close>: \<^verbatim>\<open>No Containers for pod template n\<close>
  \<^item> \<open>NoReleasePipeline\<close>: \<^verbatim>\<open>no Release pipeline available\<close>
  \<^item> \<open>NoSetVersionPipeline\<close>: \<^verbatim>\<open>no SetVersion pipeline on the Release pipeline\<close>
  \<^item> \<open>BadLabel n\<close>: \<^verbatim>\<open>expected 2 parts to label but got n\<close>
  \<^item> \<open>Wrapped msg err\<close>: \<^verbatim>\<open>errors.Wrapf(err, msg)\<close>
  \<^item> \<open>External msg\<close>: an error returned by a collaborator (the command runner, the
    file system, the cluster, a validation).
\<close>

datatype error =
    Panic string
  | UnknownPipelineKind string
  | NoContainers string
  | NoReleasePipeline
  | NoSetVersionPipeline
  | BadLabel nat
  | External string
  | Wrapped string error

section \<open>Pipeline configuration\<close>

text \<open>
  Modelled from the spec: the types of the package \<^verbatim>\<open>jenkinsfile\<close> and the
  declarative pipeline of the package \<^verbatim>\<open>syntax\<close> are not among the sources at
  hand. A configuration holds the agent's container and, for each pipeline kind, optional
  lifecycles; lifecycles hold the optional stages setup, setversion, prebuild, build,
  postbuild and promote, each with its steps, and an optional declarative pipeline. The
  declarative pipeline is known by what its two methods return: \<^verbatim>\<open>Validate()\<close> and
  \<^verbatim>\<open>GenerateCRDs(name, buildNumber, namespace, suffix, podTemplates)\<close>.
\<close>

record ParsedPipeline =
  pp_Validate :: "error option"
  pp_GenerateCRDs :: "string \<Rightarrow> string \<Rightarrow> string \<Rightarrow> string \<Rightarrow> (string \<rightharpoonup> Pod)
                        \<Rightarrow> error + (Pipeline \<times> Task list \<times> PipelineStructure option)"

record PipelineLifecycle =
  lc_Steps :: "PipelineStep option list"

record PipelineLifecycles =
  Setup :: "PipelineLifecycle option"
  SetVersion :: "PipelineLifecycle option"
  PreBuild :: "PipelineLifecycle option"
  Build :: "PipelineLifecycle option"
  PostBuild :: "PipelineLifecycle option"
  Promote :: "PipelineLifecycle option"
  Pipeline :: "ParsedPipeline option"


record Pipelines =
  Release :: "PipelineLifecycles option"
  PullRequest :: "PipelineLifecycles option"
  Feature :: "PipelineLifecycles option"

record PipelineConfig =
  Agent_Container :: string
  Pipelines :: Pipelines

section \<open>The command's options and results\<close>

text \<open>
  \<^verbatim>\<open>StepCreateTaskOptions\<close> with the fields the modelled functions read or write
  (\<open>OutDir\<close> and \<open>ServiceAccount\<close> come from the embedded common options). The
  receiver \<^verbatim>\<open>o\<close> of the source is passed in and returned updated. The field
  \<open>log\<close> is the output of the logger, kept with the state; \<^verbatim>\<open>util.ColorInfo\<close>
  is left out of the messages.
\<close>

record StepCreateTaskResults =
  res_Pipeline :: "Pipeline option"
  res_Tasks :: "Task list"
  res_Resources :: "PipelineResource option list"
  res_PipelineRun :: "PipelineRun option"
  res_Structure :: "PipelineStructure option"
  res_PipelineParams :: "Param list"

record StepCreateTaskOptions =
  OutDir :: string
  ServiceAccount :: string
  Dir :: string
  PipelineKind :: string
  Context :: string
  CustomLabels :: "string list"
  NoApply :: bool
  Trigger :: string
  TargetPath :: string
  SourceName :: string
  CustomImage :: string
  DockerRegistry :: string
  Branch :: string
  Revision :: string
  ViewSteps :: bool
  NoSetVersion :: bool
  Duration :: int
  PodTemplates :: "string \<rightharpoonup> Pod"
  MissingPodTemplates :: "string \<rightharpoonup> bool"
  stepCounter :: int
  gitInfo :: "GitRepository option"
  buildNumber :: string
  labels :: "string \<rightharpoonup> string"
  Results :: StepCreateTaskResults
  log :: "string list"

definition Warnf :: "string \<Rightarrow> StepCreateTaskOptions \<Rightarrow> StepCreateTaskOptions" where
  "Warnf msg opts = opts\<lparr>log := log opts @ [''WARNING: '' @ msg]\<rparr>"

definition Infof :: "string \<Rightarrow> StepCreateTaskOptions \<Rightarrow> StepCreateTaskOptions" where
  "Infof msg opts = opts\<lparr>log := log opts @ [msg]\<rparr>"

section \<open>Collaborators outside the compiler\<close>

text \<open>
  What the command calls and does not define: constants and helpers of packages that are
  not among the sources at hand, the case tables of Unicode, the libraries' validations,
  the command runner, the file system and the cluster clients. They are the fields of
  \<open>env\<close>, over a world \<open>'w\<close> that the effectful ones read and update; every theorem
  holds for every such environment. The calls that create or update an object in the
  cluster change the world only: the command discards the object they return, except
  the pipeline returned by \<^verbatim>\<open>tekton.CreateOrUpdatePipeline\<close>, with which it goes on.
  \<open>document\<close> is what \<open>writeOutput\<close> marshals.
\<close>

datatype document =
    PipelineDoc "Pipeline option"
  | PipelineRunDoc "PipelineRun option"
  | StructureDoc PipelineStructure
  | TaskDoc Task
  | ResourceDoc "PipelineResource option"

record 'w env =
  defaultContainerName :: string
  unicodeToUpper :: "string \<Rightarrow> string"
  TektonAPIVersion :: string
  DefaultFromYamlCRDLabels :: "string \<rightharpoonup> string"
  LabelPipelineFromYaml :: string
  PipelineResourceName :: "GitRepository option \<Rightarrow> string \<Rightarrow> string \<Rightarrow> string"
  ToValidName :: "string \<Rightarrow> string"
  PipelineSpec_Validate :: "Pipeline \<Rightarrow> error option"
  TaskSpec_Validate :: "Task \<Rightarrow> error option"
  RunWithoutRetry :: "string \<Rightarrow> string list \<Rightarrow> string \<Rightarrow> 'w \<Rightarrow> error + (string \<times> 'w)"
  FileExists :: "string \<Rightarrow> 'w \<Rightarrow> error + bool"
  ReadFile :: "string \<Rightarrow> 'w \<Rightarrow> error + string"
  Mkdir :: "string \<Rightarrow> 'w \<Rightarrow> error + 'w"
  IsExist :: "error \<Rightarrow> bool"
  Marshal :: "document \<Rightarrow> error + string"
  WriteFile :: "string \<Rightarrow> string \<Rightarrow> 'w \<Rightarrow> error + 'w"
  Render :: "string list list \<Rightarrow> 'w \<Rightarrow> 'w"
  KubeClientAndDevNamespace :: "'w \<Rightarrow> error + string"
  TektonClient :: "'w \<Rightarrow> error option"
  CreateOrUpdateSourceResource :: "string \<Rightarrow> PipelineResource \<Rightarrow> 'w \<Rightarrow> error + 'w"
  CreateOrUpdateTask :: "string \<Rightarrow> Task \<Rightarrow> 'w \<Rightarrow> error + 'w"
  CreateOrUpdatePipeline :: "string \<Rightarrow> Pipeline \<Rightarrow> (string \<rightharpoonup> string) \<Rightarrow> 'w \<Rightarrow> error + (Pipeline \<times> 'w)"
  CreatePipelineRun :: "string \<Rightarrow> Pipeline \<Rightarrow> PipelineRun \<Rightarrow> int \<Rightarrow> 'w \<Rightarrow> error + 'w"
  ApiExtensionsClient :: "'w \<Rightarrow> error option"
  RegisterPipelineStructureCRD :: "'w \<Rightarrow> error + 'w"
  JXClientAndDevNamespace :: "'w \<Rightarrow> error option"
  PipelineStructures_Create :: "string \<Rightarrow> PipelineStructure \<Rightarrow> 'w \<Rightarrow> error + 'w"

section \<open>Environment and volume injection\<close>

text \<open>
  Modelled from the spec: the helpers \<^verbatim>\<open>kube.GetSliceEnvVar\<close>,
  \<^verbatim>\<open>kube.ContainsVolume\<close>, \<^verbatim>\<open>kube.ContainsVolumeMount\<close> and
  \<^verbatim>\<open>kube.CombineVolumes\<close> are not among the sources at hand. Environment variables
  are looked up by name, the first one found counting; volumes and mounts are keyed by
  their name, and combining adds the volumes whose name is not present yet.
\<close>

definition GetSliceEnvVar :: "EnvVar list \<Rightarrow> string \<Rightarrow> EnvVar option" where
  "GetSliceEnvVar envVars name = find (\<lambda>envVar. ev_Name envVar = name) envVars"

definition ContainsVolume :: "Volume list \<Rightarrow> Volume \<Rightarrow> bool" where
  "ContainsVolume volumes volume = list_ex (\<lambda>v. vol_Name v = vol_Name volume) volumes"

definition ContainsVolumeMount :: "VolumeMount list \<Rightarrow> VolumeMount \<Rightarrow> bool" where
  "ContainsVolumeMount mounts mount = list_ex (\<lambda>v. vm_Name v = vm_Name mount) mounts"

definition CombineVolumes :: "Volume list \<Rightarrow> Volume list \<Rightarrow> Volume list" where
  "CombineVolumes volumes otherVolumes =
     foldl (\<lambda>volumes v. if \<not> ContainsVolume volumes v then volumes @ [v] else volumes)
       volumes otherVolumes"

text \<open>
  Every injection of \<open>modifyEnvVars\<close> has the same shape in the source,
  \<^verbatim>\<open>if cond && kube.GetSliceEnvVar(envVars, name) == nil { envVars = append(envVars, ...) }\<close>;
  \<open>appendEnvVar\<close> is that statement.
\<close>

definition appendEnvVar :: "bool \<Rightarrow> EnvVar list \<Rightarrow> string \<Rightarrow> string \<Rightarrow> EnvVar list" where
  "appendEnvVar cond envVars name value =
     (if cond \<and> GetSliceEnvVar envVars name = None
      then envVars @ [\<lparr>ev_Name = name, ev_Value = value\<rparr>] else envVars)"

definition modifyEnvVars :: "'w env \<Rightarrow> StepCreateTaskOptions \<Rightarrow> Container \<Rightarrow> Container" where
  "modifyEnvVars env opts container =
     (let envVars = filter (\<lambda>e. ev_Name e \<noteq> ''JENKINS_URL'') (c_Env container);
          envVars = appendEnvVar True envVars ''DOCKER_REGISTRY'' (DockerRegistry opts);
          envVars = appendEnvVar (PipelineKind opts \<noteq> []) envVars ''PIPELINE_KIND'' (PipelineKind opts);
          envVars = appendEnvVar (Context opts \<noteq> []) envVars ''PIPELINE_CONTEXT'' (Context opts);
          branch = Branch opts;
          envVars =
            (case gitInfo opts of
               None \<Rightarrow> envVars
             | Some gi \<Rightarrow>
                 let u = git_CloneURL gi;
                     envVars = appendEnvVar (u \<noteq> []) envVars ''SOURCE_URL'' u;
                     repo = git_Name gi;
                     owner = git_Organisation gi;
                     envVars = appendEnvVar (owner \<noteq> []) envVars ''REPO_OWNER'' owner;
                     envVars = appendEnvVar (repo \<noteq> []) envVars ''REPO_NAME'' repo
                 in appendEnvVar (owner \<noteq> [] \<and> repo \<noteq> [] \<and> branch \<noteq> []) envVars
                      ''JOB_NAME'' (owner @ ''/'' @ repo @ ''/'' @ branch));
          envVars = appendEnvVar (branch \<noteq> []) envVars ''BRANCH_NAME'' branch;
          envVars = appendEnvVar True envVars ''JX_BATCH_MODE'' ''true'';
          envVars = foldl (\<lambda>envVars param.
                       appendEnvVar True envVars (ToUpper (unicodeToUpper env) (p_Name param))
                         (''${inputs.params.'' @ p_Name param @ ''}''))
                     envVars (res_PipelineParams (Results opts))
      in container\<lparr>c_Env := envVars\<rparr>)"

text \<open>\<open>modifyVolumes\<close> updates the container it is given and returns the volumes.\<close>

definition modifyVolumes :: "Container \<Rightarrow> Volume list \<Rightarrow> Container \<times> Volume list" where
  "modifyVolumes container volumes =
     (let answer = volumes;
          podInfoName = ''podinfo'';
          volume = \<lparr>vol_Name = podInfoName,
                    vol_Source = DownwardAPI [(''labels'', ''metadata.labels'')]\<rparr>;
          answer = (if \<not> ContainsVolume volumes volume then answer @ [volume] else answer);
          volumeMount = \<lparr>vm_Name = podInfoName, vm_MountPath = ''/etc/podinfo'',
                         vm_ReadOnly = True\<rparr>;
          container = (if \<not> ContainsVolumeMount (c_VolumeMounts container) volumeMount
                       then container\<lparr>c_VolumeMounts := c_VolumeMounts container @ [volumeMount]\<rparr>
                       else container)
      in (container, answer))"

definition getWorkspaceDir :: "StepCreateTaskOptions \<Rightarrow> string" where
  "getWorkspaceDir opts = Join [''/workspace'', SourceName opts]"

section \<open>The lifecycle step compiler\<close>

text \<open>
  \<open>createSteps\<close> is one recursive function in the source. Its body before the loop
  over the children is \<open>createSteps_own\<close>, in three consecutive parts: what the step
  takes over from its parent (\<open>createSteps_inherit\<close>), the choice of the pod template
  of a leaf (\<open>createSteps_podTemplate\<close>) and the container built from it
  (\<open>createSteps_container\<close>). The parameters \<open>languageName\<close>,
  \<open>pipelineConfig\<close> and \<open>templateKind\<close> are handed down unchanged and never
  read; the model leaves them out. The package constant \<open>defaultContainerName\<close> is
  read from the environment.
\<close>

definition createSteps_inherit ::
  "StepCreateTaskOptions \<Rightarrow> PipelineStep \<Rightarrow> string \<Rightarrow> string
     \<Rightarrow> string \<times> string \<times> StepCreateTaskOptions" where
  "createSteps_inherit opts step containerName dir =
     (let containerName = (if step_Container step \<noteq> [] then step_Container step
                           else containerName);
          dir = (if step_Container step \<noteq> [] then dir
                 else if step_Dir step \<noteq> [] then step_Dir step else dir)
      in case gitInfo opts of
           Some gi \<Rightarrow>
             (containerName,
              Replace (Replace dir ''REPLACE_ME_APP_NAME'' (git_Name gi) (- 1))
                ''REPLACE_ME_ORG'' (git_Organisation gi) (- 1),
              opts)
         | None \<Rightarrow> (containerName, dir, Warnf ''No GitInfo available!'' opts))"

definition createSteps_podTemplate ::
  "'w env \<Rightarrow> StepCreateTaskOptions \<Rightarrow> string
     \<Rightarrow> error + (Container \<times> Volume list \<times> string \<times> StepCreateTaskOptions)" where
  "createSteps_podTemplate env opts containerName =
     (let (containerName, opts) =
            (if containerName = []
             then (defaultContainerName env,
                   Warnf (''No '' @ [CHR 0x27] @ ''agent.container'' @ [CHR 0x27]
                          @ '' specified in the pipeline configuration so defaulting to use: ''
                          @ defaultContainerName env) opts)
             else (containerName, opts));
          podTemplate = PodTemplates opts containerName;
          (podTemplate, opts) =
            (if podTemplate = None
             then (PodTemplates opts (defaultContainerName env),
                   (Warnf (''Could not find a pod template for containerName '' @ containerName) opts)
                     \<lparr>MissingPodTemplates := (MissingPodTemplates opts)(containerName \<mapsto> True)\<rparr>)
             else (podTemplate, opts))
      in case podTemplate of
           None \<Rightarrow> Inl (Panic ''nil pointer dereference'')
         | Some podTemplate \<Rightarrow>
             (case pod_Containers podTemplate of
                [] \<Rightarrow> Inl (NoContainers containerName)
              | c # _ \<Rightarrow> Inr (c, pod_Volumes podTemplate, containerName, opts)))"

definition createSteps_container ::
  "'w env \<Rightarrow> StepCreateTaskOptions \<Rightarrow> PipelineStep \<Rightarrow> Container \<Rightarrow> Volume list \<Rightarrow> string \<Rightarrow> string
     \<Rightarrow> Container \<times> Volume list \<times> string" where
  "createSteps_container env opts step c volumes dir prefixPath =
     (let pfx = (if prefixPath \<noteq> [] then prefixPath @ ''-'' else prefixPath);
          stepName = (if step_Name step = []
                      then ''step'' @ Itoa (1 + stepCounter opts)
                      else step_Name step);
          c = c\<lparr>c_Name := pfx @ stepName\<rparr>;
          (c, volumes) = modifyVolumes c volumes;
          c = modifyEnvVars env opts c;
          c = c\<lparr>c_Command := [''/bin/sh'']\<rparr>;
          c = (if CustomImage opts \<noteq> [] then c\<lparr>c_Image := CustomImage opts\<rparr> else c);
          commandText = replaceCommandText step;
          c = c\<lparr>c_Args := [''-c'', commandText]\<rparr>;
          workspaceDir = getWorkspaceDir opts;
          dir = (if HasPrefix dir ''./''
                 then workspaceDir @ TrimPrefix dir ''.'' else dir);
          dir = (if \<not> IsAbs dir then Join [workspaceDir, dir] else dir);
          c = c\<lparr>c_WorkingDir := dir, c_Stdin := False, c_TTY := False\<rparr>
      in (c, volumes, dir))"

definition createSteps_own ::
  "'w env \<Rightarrow> StepCreateTaskOptions \<Rightarrow> PipelineStep \<Rightarrow> string \<Rightarrow> string \<Rightarrow> string
     \<Rightarrow> error + (Container list \<times> Volume list \<times> StepCreateTaskOptions \<times> string \<times> string)" where
  "createSteps_own env opts step containerName dir prefixPath =
     (case createSteps_inherit opts step containerName dir of
        (containerName, dir, opts) \<Rightarrow>
          if step_Command step \<noteq> [] then
            (case createSteps_podTemplate env opts containerName of
               Inl err \<Rightarrow> Inl err
             | Inr (c, volumes, containerName, opts) \<Rightarrow>
                 (let opts = opts\<lparr>stepCounter := stepCounter opts + 1\<rparr>
                  in case createSteps_container env opts step c volumes dir prefixPath of
                       (c, volumes, dir) \<Rightarrow> Inr ([c], volumes, opts, containerName, dir)))
          else Inr ([], [], opts, containerName, dir))"

fun createSteps ::
  "'w env \<Rightarrow> StepCreateTaskOptions \<Rightarrow> PipelineStep option \<Rightarrow> string \<Rightarrow> string \<Rightarrow> string
     \<Rightarrow> error + (Container list \<times> Volume list \<times> StepCreateTaskOptions)"
and createSteps_children ::
  "'w env \<Rightarrow> StepCreateTaskOptions \<Rightarrow> PipelineStep option list \<Rightarrow> string \<Rightarrow> string \<Rightarrow> string
     \<Rightarrow> Container list \<Rightarrow> Volume list
     \<Rightarrow> error + (Container list \<times> Volume list \<times> StepCreateTaskOptions)"
where
  "createSteps env opts None containerName dir prefixPath =
     Inl (Panic ''nil pointer dereference'')"
| "createSteps env opts (Some (PipelineStep nm cmd sdir ct wh children))
       containerName dir prefixPath =
     (case createSteps_own env opts (PipelineStep nm cmd sdir ct wh children)
             containerName dir prefixPath of
        Inl err \<Rightarrow> Inl err
      | Inr (steps, volumes, opts, containerName, dir) \<Rightarrow>
          createSteps_children env opts children
            containerName dir prefixPath steps volumes)"
| "createSteps_children env opts [] containerName dir prefixPath steps volumes =
     Inr (steps, volumes, opts)"
| "createSteps_children env opts (s # ss) containerName dir prefixPath steps volumes =
     (case createSteps env opts s containerName dir prefixPath of
        Inl err \<Rightarrow> Inl err
      | Inr (childSteps, v, opts) \<Rightarrow>
          createSteps_children env opts ss containerName dir prefixPath
            (steps @ childSteps) (CombineVolumes volumes v))"

section \<open>Constants of the collaborating packages\<close>

text \<open>
  Modelled from the spec: the pipeline kinds \<^verbatim>\<open>release\<close>, \<^verbatim>\<open>pullrequest\<close> and
  \<^verbatim>\<open>feature\<close> (the constants of the package \<^verbatim>\<open>jenkinsfile\<close> are not among
  the sources at hand).
\<close>

definition PipelineKindRelease :: string where "PipelineKindRelease = ''release''"



text \<open>Constants of the Tekton library.\<close>

definition PipelineResourceTypeGit :: string where "PipelineResourceTypeGit = ''git''"




section \<open>The version resolver\<close>

definition runStepCommand ::
  "'w env \<Rightarrow> PipelineStep \<Rightarrow> StepCreateTaskOptions \<times> 'w \<Rightarrow> error + (StepCreateTaskOptions \<times> 'w)" where
  "runStepCommand env step st =
     (case st of (opts, w) \<Rightarrow>
        let c = step_Command step
        in if c = [] then Inr (opts, w)
           else let opts = Infof (''running command: '' @ c) opts;
                    commandText = Replace (step_Command step) [CHR 0x5C, CHR ''$''] ''$'' (- 1)
                in case RunWithoutRetry env ''/bin/sh'' [''-c'', commandText] (Dir opts) w of
                     Inl err \<Rightarrow> Inl err
                   | Inr (result, w) \<Rightarrow> Inr (Infof result opts, w))"

text \<open>
  \<open>invokeSteps\<close> is the loop; \<open>invokeSteps_body\<close> is its body for one step: a
  \<^verbatim>\<open>nil\<close> step is skipped, the children are invoked first, then the step's own
  command unless its \<open>When\<close> is \<^verbatim>\<open>!prow\<close> or the command is empty.
\<close>

fun invokeSteps ::
  "'w env \<Rightarrow> PipelineStep option list \<Rightarrow> StepCreateTaskOptions \<times> 'w
     \<Rightarrow> error + (StepCreateTaskOptions \<times> 'w)"
and invokeSteps_body ::
  "'w env \<Rightarrow> PipelineStep option \<Rightarrow> StepCreateTaskOptions \<times> 'w
     \<Rightarrow> error + (StepCreateTaskOptions \<times> 'w)"
where
  "invokeSteps env [] st = Inr st"
| "invokeSteps env (s # steps) st =
     (case invokeSteps_body env s st of
        Inl err \<Rightarrow> Inl err
      | Inr st \<Rightarrow> invokeSteps env steps st)"
| "invokeSteps_body env None st = Inr st"
| "invokeSteps_body env (Some (PipelineStep nm cmd sdir ct wh children)) st =
     (case (if length children > 0 then invokeSteps env children st else Inr st) of
        Inl err \<Rightarrow> Inl err
      | Inr st \<Rightarrow>
          let when = TrimSpace wh
          in if when = ''!prow'' \<or> cmd = [] then Inr st
             else runStepCommand env (PipelineStep nm cmd sdir ct wh children) st)"

definition setVersionOnReleasePipelines ::
  "'w env \<Rightarrow> StepCreateTaskOptions \<Rightarrow> PipelineConfig \<Rightarrow> 'w
     \<Rightarrow> error + (StepCreateTaskOptions \<times> 'w)" where
  "setVersionOnReleasePipelines env opts pipelineConfig w =
     (if NoSetVersion opts \<or> ViewSteps opts then Inr (opts, w)
      else let version = [] in
        if PipelineKind opts = PipelineKindRelease then
          (case Release (Pipelines pipelineConfig) of
             None \<Rightarrow> Inl NoReleasePipeline
           | Some release \<Rightarrow>
               (case SetVersion release of
                  None \<Rightarrow> Inl NoSetVersionPipeline
                | Some sv \<Rightarrow>
                    (case invokeSteps env (lc_Steps sv) (opts, w) of
                       Inl err \<Rightarrow> Inl err
                     | Inr (opts, w) \<Rightarrow>
                         let versionFile = Join [Dir opts, ''VERSION'']
                         in case FileExists env versionFile w of
                              Inl err \<Rightarrow> Inl err
                            | Inr exist \<Rightarrow>
                                (case (if exist
                                       then (case ReadFile env versionFile w of
                                               Inl err \<Rightarrow>
                                                 Inl (Wrapped (''failed to read file '' @ versionFile) err)
                                             | Inr data \<Rightarrow>
                                                 let text = TrimSpace data
                                                 in if text = []
                                                    then Inr (version,
                                                           Warnf (''versions file '' @ versionFile @ '' is empty!'') opts)
                                                    else Inr (text, opts))
                                       else Inr (version, opts)) of
                                   Inl err \<Rightarrow> Inl err
                                 | Inr (version, opts) \<Rightarrow>
                                     if version \<noteq> []
                                     then Inr (opts\<lparr>Results := (Results opts)\<lparr>res_PipelineParams :=
                                                     res_PipelineParams (Results opts)
                                                       @ [\<lparr>p_Name = ''version'', p_Value = version\<rparr>]\<rparr>,
                                                   Revision := ''v'' @ version\<rparr>, w)
                                     else Inr (opts, w)))))
        else
          (let branch = Branch opts;
               branch = (if branch = [] then Revision opts else branch);
               buildNumber' = buildNumber opts;
               previewVersion = ''0.0.0-SNAPSHOT-'' @ branch @ ''-'' @ buildNumber'
           in Inr (opts\<lparr>Results := (Results opts)\<lparr>res_PipelineParams :=
                            res_PipelineParams (Results opts)
                              @ [\<lparr>p_Name = ''preview_version'', p_Value = previewVersion\<rparr>]\<rparr>\<rparr>, w)))"

section \<open>The cluster reconciler\<close>



text \<open>
  The two loops of \<open>applyPipeline\<close>, over the resources and over the tasks. The
  name of a resource is read before \<open>NoApply\<close> is tested, so a \<^verbatim>\<open>nil\<close> resource is a
  nil-pointer panic in either mode. What \<^verbatim>\<open>tekton.CreateOrUpdateSourceResource\<close> and
  \<^verbatim>\<open>tekton.CreateOrUpdateTask\<close> return is discarded: the loops go on with, and the
  results keep, the objects the command was given. A failure ends the whole apply; the
  model then returns the error only (what the cluster has received by then is not rolled
  back in the source, and not reported by the model).
\<close>

fun applyPipeline_resources ::
  "'w env \<Rightarrow> string \<Rightarrow> GitRepository option \<Rightarrow> string \<Rightarrow> PipelineResource option list
     \<Rightarrow> PipelineResourceBinding list \<Rightarrow> PipelineResource option list
     \<Rightarrow> StepCreateTaskOptions \<times> 'w
     \<Rightarrow> error + (PipelineResourceBinding list \<times> PipelineResource option list
                  \<times> StepCreateTaskOptions \<times> 'w)" where
  "applyPipeline_resources env ns gi branch [] resourceBindings acc st =
     Inr (resourceBindings, acc, st)"
| "applyPipeline_resources env ns gi branch (None # resources) resourceBindings acc st =
     Inl (Panic ''nil pointer dereference'')"
| "applyPipeline_resources env ns gi branch (Some resource # resources) resourceBindings acc st =
     (case st of (opts, w) \<Rightarrow>
        let resourceBindings = resourceBindings @
              [\<lparr>rb_Name = r_Name resource, rb_RefName = r_Name resource,
                rb_RefAPIVersion = r_APIVersion resource\<rparr>]
        in if \<not> NoApply opts then
             (case CreateOrUpdateSourceResource env ns resource w of
                Inl err \<Rightarrow>
                  Inl (Wrapped (''failed to create/update PipelineResource '' @ r_Name resource
                                @ '' in namespace '' @ ns) err)
              | Inr w \<Rightarrow>
                  if r_Type resource = PipelineResourceTypeGit then
                    (case gi of
                       None \<Rightarrow> Inl (Panic ''nil pointer dereference'')
                     | Some g \<Rightarrow>
                         applyPipeline_resources env ns gi branch resources resourceBindings
                           (acc @ [Some resource])
                           (Infof (''upserted PipelineResource '' @ r_Name resource
                                   @ '' for the git repository '' @ git_HttpCloneURL g
                                   @ '' and branch '' @ branch) opts, w))
                  else applyPipeline_resources env ns gi branch resources resourceBindings
                         (acc @ [Some resource])
                         (Infof (''upserted PipelineResource '' @ r_Name resource) opts, w))
           else applyPipeline_resources env ns gi branch resources resourceBindings
                  (acc @ [Some resource]) (opts, w))"

fun applyPipeline_tasks ::
  "'w env \<Rightarrow> string \<Rightarrow> Task list \<Rightarrow> Task list \<Rightarrow> StepCreateTaskOptions \<times> 'w
     \<Rightarrow> error + (Task list \<times> StepCreateTaskOptions \<times> 'w)" where
  "applyPipeline_tasks env ns [] acc st = Inr (acc, st)"
| "applyPipeline_tasks env ns (task # tasks) acc st =
     (case st of (opts, w) \<Rightarrow>
        let task = task\<lparr>t_Namespace := ns\<rparr>
        in if \<not> NoApply opts then
             (case CreateOrUpdateTask env ns task w of
                Inl err \<Rightarrow>
                  Inl (Wrapped (''failed to create/update the task '' @ t_Name task
                                @ '' in namespace '' @ ns) err)
              | Inr w \<Rightarrow>
                  applyPipeline_tasks env ns tasks (acc @ [task])
                    (Infof (''upserted Task '' @ t_Name task) opts, w))
           else applyPipeline_tasks env ns tasks (acc @ [task]) (opts, w))"

definition pipelineOwnerReference :: "'w env \<Rightarrow> Pipeline \<Rightarrow> OwnerReference" where
  "pipelineOwnerReference env pipeline =
     \<lparr>or_APIVersion = TektonAPIVersion env, or_Kind = ''Pipeline'',
      or_Name = pl_Name pipeline, or_UID = pl_UID pipeline\<rparr>"

text \<open>
  The persistence of the structure record, inside the apply branch. The structure that
  \<^verbatim>\<open>structuresClient.Create\<close> returns is discarded; the one stamped here is kept.
\<close>

definition applyPipeline_structure ::
  "'w env \<Rightarrow> string \<Rightarrow> Pipeline \<Rightarrow> PipelineRun \<Rightarrow> PipelineStructure
     \<Rightarrow> StepCreateTaskOptions \<times> 'w
     \<Rightarrow> error + (PipelineStructure \<times> StepCreateTaskOptions \<times> 'w)" where
  "applyPipeline_structure env ns pipeline run structure st =
     (case st of (opts, w) \<Rightarrow>
        let structure = structure\<lparr>st_PipelineRunRef := Some (run_Name run)\<rparr>
        in case ApiExtensionsClient env w of
             Some err \<Rightarrow> Inl err
           | None \<Rightarrow>
               (case RegisterPipelineStructureCRD env w of
                  Inl err \<Rightarrow> Inl err
                | Inr w \<Rightarrow>
                    (case JXClientAndDevNamespace env w of
                       Some err \<Rightarrow> Inl err
                     | None \<Rightarrow>
                         let structure = structure\<lparr>st_OwnerReferences :=
                                           [pipelineOwnerReference env pipeline]\<rparr>;
                             structure = (if st_PipelineRef structure = None
                                          then structure\<lparr>st_PipelineRef := Some (pl_Name pipeline)\<rparr>
                                          else structure);
                             structure = structure\<lparr>st_Name := run_Name run,
                                           st_PipelineRunRef := Some (run_Name run)\<rparr>
                         in case PipelineStructures_Create env ns structure w of
                              Inl structErr \<Rightarrow>
                                Inl (Wrapped (''failed to create the PipelineStructure in namespace '' @ ns)
                                       structErr)
                            | Inr w \<Rightarrow>
                                Inr (structure,
                                     Infof (''created PipelineStructure '' @ st_Name structure) opts, w))))"

definition applyPipeline ::
  "'w env \<Rightarrow> StepCreateTaskOptions \<Rightarrow> Pipeline \<Rightarrow> Task list \<Rightarrow> PipelineResource option list
     \<Rightarrow> PipelineStructure option \<Rightarrow> GitRepository option \<Rightarrow> string \<Rightarrow> 'w
     \<Rightarrow> error + (StepCreateTaskOptions \<times> 'w)" where
  "applyPipeline env opts pipeline tasks resources structure gi branch w =
     (case KubeClientAndDevNamespace env w of
        Inl err \<Rightarrow> Inl err
      | Inr ns \<Rightarrow>
     (case TektonClient env w of
        Some err \<Rightarrow> Inl err
      | None \<Rightarrow>
     (case applyPipeline_resources env ns gi branch resources [] [] (opts, w) of
        Inl err \<Rightarrow> Inl err
      | Inr (resourceBindings, resources, st) \<Rightarrow>
     (case applyPipeline_tasks env ns tasks [] st of
        Inl err \<Rightarrow> Inl err
      | Inr (tasks, opts, w) \<Rightarrow>
     (let pipeline = pipeline\<lparr>pl_Namespace := ns\<rparr>;
          pipeline = (if pl_APIVersion pipeline = []
                      then pipeline\<lparr>pl_APIVersion := TektonAPIVersion env\<rparr> else pipeline);
          pipeline = (if pl_Kind pipeline = []
                      then pipeline\<lparr>pl_Kind := ''Pipeline''\<rparr> else pipeline)
      in case (if \<not> NoApply opts
               then (case CreateOrUpdatePipeline env ns pipeline (labels opts) w of
                       Inl err \<Rightarrow>
                         Inl (Wrapped (''failed to create/update the Pipeline in namespace '' @ ns) err)
                     | Inr (pipeline, w) \<Rightarrow>
                         Inr (pipeline, Infof (''upserted Pipeline '' @ pl_Name pipeline) opts, w))
               else Inr (pipeline, opts, w)) of
           Inl err \<Rightarrow> Inl err
         | Inr (pipeline, opts, w) \<Rightarrow>
     (let run = \<lparr>run_APIVersion = TektonAPIVersion env, run_Kind = ''PipelineRun'',
                  run_Name = pl_Name pipeline,
                  run_OwnerReferences = [pipelineOwnerReference env pipeline],
                  run_Labels = labels opts,
                  run_ServiceAccount = ServiceAccount opts,
                  run_Trigger = Trigger opts,
                  run_PipelineRefName = pl_Name pipeline,
                  run_PipelineRefAPIVersion = pl_APIVersion pipeline,
                  run_Resources = resourceBindings,
                  run_Params = res_PipelineParams (Results opts)\<rparr>
      in case (if \<not> NoApply opts
               then (case CreatePipelineRun env ns pipeline run (Duration opts) w of
                       Inl err \<Rightarrow>
                         Inl (Wrapped (''failed to create the PipelineRun in namespace '' @ ns) err)
                     | Inr w \<Rightarrow>
                         let opts = Infof (''created PipelineRun '' @ run_Name run) opts
                         in (case structure of
                               None \<Rightarrow> Inr (run, structure, opts, w)
                             | Some structure \<Rightarrow>
                                 (case applyPipeline_structure env ns pipeline run structure (opts, w) of
                                    Inl err \<Rightarrow> Inl err
                                  | Inr (structure, opts, w) \<Rightarrow> Inr (run, Some structure, opts, w))))
               else Inr (run, structure, opts, w)) of
           Inl err \<Rightarrow> Inl err
         | Inr (run, structure, opts, w) \<Rightarrow>
             Inr (opts\<lparr>Results := (Results opts)
                    \<lparr>res_Tasks := tasks, res_Pipeline := Some pipeline, res_Resources := resources,
                     res_PipelineRun := Some run, res_Structure := structure\<rparr>\<rparr>, w)))))))"


section \<open>The graph builder\<close>


















section \<open>Concrete inputs\<close>

text \<open>
  A small, fully concrete invocation on which the theorems below are exercised: a git
  repository, two pod templates, the default option values of the command, and a world in
  which every collaborator succeeds and records what it was asked to do. Every string of
  these inputs is ASCII, so \<open>unicodeToUpper\<close> is never applied to them; the
  environment leaves a string with other bytes as it is.
\<close>

definition exampleGit :: GitRepository where
  "exampleGit =
     \<lparr>git_Name = ''myapp'', git_Organisation = ''acme'',
      git_CloneURL = ''https://github.com/acme/myapp.git'',
      git_HttpsURL = ''https://github.com/acme/myapp'',
      git_HttpCloneURL = ''https://github.com/acme/myapp.git''\<rparr>"

definition exampleContainer :: "string \<Rightarrow> Container" where
  "exampleContainer img =
     \<lparr>c_Name = ''builder'', c_Image = img, c_Command = [], c_Args = [],
      c_WorkingDir = [], c_Env = [], c_VolumeMounts = [], c_Stdin = False, c_TTY = False\<rparr>"

definition examplePod :: "string \<Rightarrow> Pod" where
  "examplePod img = \<lparr>pod_Containers = [exampleContainer img], pod_Volumes = []\<rparr>"


definition exampleOptions :: StepCreateTaskOptions where
  "exampleOptions =
     \<lparr>OutDir = [], ServiceAccount = ''tekton-bot'', Dir = ''/src'', PipelineKind = ''release'',
      Context = [], CustomLabels = [], NoApply = False, Trigger = ''manual'', TargetPath = [],
      SourceName = ''source'', CustomImage = [], DockerRegistry = ''registry.example'',
      Branch = ''master'', Revision = [], ViewSteps = False, NoSetVersion = False,
      Duration = 30000000000,
      PodTemplates = [''maven'' \<mapsto> examplePod ''maven:3'', ''default'' \<mapsto> examplePod ''builder:1''],
      MissingPodTemplates = Map.empty, stepCounter = 0, gitInfo = Some exampleGit,
      buildNumber = ''1'', labels = Map.empty,
      Results = \<lparr>res_Pipeline = None, res_Tasks = [], res_Resources = [],
                  res_PipelineRun = None, res_Structure = None, res_PipelineParams = []\<rparr>,
      log = []\<rparr>"

definition failure :: "error + 'a \<Rightarrow> error option" where
  "failure r = (case r of Inl err \<Rightarrow> Some err | Inr x \<Rightarrow> None)"


definition stepDirs :: "error + (Container list \<times> Volume list \<times> StepCreateTaskOptions) \<Rightarrow> string list" where
  "stepDirs r = (case r of Inl err \<Rightarrow> [] | Inr (steps, volumes, opts) \<Rightarrow> map c_WorkingDir steps)"


definition stepImages :: "error + (Container list \<times> Volume list \<times> StepCreateTaskOptions) \<Rightarrow> string list" where
  "stepImages r = (case r of Inl err \<Rightarrow> [] | Inr (steps, volumes, opts) \<Rightarrow> map c_Image steps)"

record world =
  w_VERSION :: "string option"
  w_commands :: "string list"
  w_cluster :: "string list"
  w_files :: "(string \<times> string) list"
  w_tables :: "string list list list"

definition exampleWorld :: world where
  "exampleWorld = \<lparr>w_VERSION = None, w_commands = [], w_cluster = [], w_files = [], w_tables = []\<rparr>"

definition exampleEnv :: "world env" where
  "exampleEnv =
     \<lparr>defaultContainerName = ''default'',
      unicodeToUpper = (\<lambda>s. s),
      TektonAPIVersion = ''tekton.dev/v1alpha1'',
      DefaultFromYamlCRDLabels = [''jenkins.io/pipelineType'' \<mapsto> ''yaml''],
      LabelPipelineFromYaml = ''jenkins.io/pipelineFromYaml'',
      PipelineResourceName =
        (\<lambda>gi branch context. case gi of
            None \<Rightarrow> branch
          | Some g \<Rightarrow> git_Organisation g @ ''-'' @ git_Name g @ ''-'' @ branch),
      ToValidName = (\<lambda>name. name),
      PipelineSpec_Validate = (\<lambda>pipeline. None),
      TaskSpec_Validate = (\<lambda>task. None),
      RunWithoutRetry =
        (\<lambda>name args dir w. Inr ([], w\<lparr>w_commands := w_commands w @ [joinWith '' '' (name # args)]\<rparr>)),
      FileExists = (\<lambda>path w. Inr (path = ''/src/VERSION'' \<and> w_VERSION w \<noteq> None)),
      ReadFile =
        (\<lambda>path w. case w_VERSION w of
            None \<Rightarrow> Inl (External ''no such file'')
          | Some data \<Rightarrow> Inr data),
      Mkdir = (\<lambda>folder w. Inr w),
      IsExist = (\<lambda>err. False),
      Marshal = (\<lambda>doc. Inr ''---''),
      WriteFile = (\<lambda>fileName data w. Inr (w\<lparr>w_files := w_files w @ [(fileName, data)]\<rparr>)),
      Render = (\<lambda>rows w. w\<lparr>w_tables := w_tables w @ [rows]\<rparr>),
      KubeClientAndDevNamespace = (\<lambda>w. Inr ''jx''),
      TektonClient = (\<lambda>w. None),
      CreateOrUpdateSourceResource =
        (\<lambda>ns resource w. Inr (w\<lparr>w_cluster := w_cluster w @ [''resource '' @ r_Name resource]\<rparr>)),
      CreateOrUpdateTask =
        (\<lambda>ns task w. Inr (w\<lparr>w_cluster := w_cluster w @ [''task '' @ t_Name task]\<rparr>)),
      CreateOrUpdatePipeline =
        (\<lambda>ns pipeline lbls w.
            Inr (pipeline, w\<lparr>w_cluster := w_cluster w @ [''pipeline '' @ pl_Name pipeline]\<rparr>)),
      CreatePipelineRun =
        (\<lambda>ns pipeline run duration w.
            Inr (w\<lparr>w_cluster := w_cluster w @ [''run '' @ run_Name run]\<rparr>)),
      ApiExtensionsClient = (\<lambda>w. None),
      RegisterPipelineStructureCRD = (\<lambda>w. Inr w),
      JXClientAndDevNamespace = (\<lambda>w. None),
      PipelineStructures_Create =
        (\<lambda>ns structure w.
            Inr (w\<lparr>w_cluster := w_cluster w @ [''structure '' @ st_Name structure]\<rparr>))\<rparr>"

definition exampleLifecycles :: PipelineLifecycles where
  "exampleLifecycles =
     \<lparr>Setup = None,
      SetVersion = Some \<lparr>lc_Steps = [Some (PipelineStep ''next-version'' ''jx step next-version'' [] [] [] [])]\<rparr>,
      PreBuild = None,
      Build = Some \<lparr>lc_Steps = [Some (PipelineStep ''make'' ''make build'' [] [] [] [])]\<rparr>,
      PostBuild = None, Promote = None, Pipeline = None\<rparr>"

definition exampleConfig :: PipelineConfig where
  "exampleConfig =
     \<lparr>Agent_Container = ''maven'',
      Pipelines = \<lparr>Release = Some exampleLifecycles, PullRequest = None, Feature = None\<rparr>\<rparr>"


definition optionsOf :: "error + (StepCreateTaskOptions \<times> 'w) \<Rightarrow> StepCreateTaskOptions option" where
  "optionsOf r = (case r of Inl err \<Rightarrow> None | Inr (opts, w) \<Rightarrow> Some opts)"

definition worldOf :: "error + (StepCreateTaskOptions \<times> 'w) \<Rightarrow> 'w option" where
  "worldOf r = (case r of Inl err \<Rightarrow> None | Inr (opts, w) \<Rightarrow> Some w)"

definition exampleTask :: Task where
  "exampleTask =
     \<lparr>t_APIVersion = ''tekton.dev/v1alpha1'', t_Kind = ''Task'', t_Name = ''build-task'',
      t_Namespace = [], t_Labels = Map.empty,
      t_Steps = [(exampleContainer ''maven:3'')\<lparr>c_Name := ''build''\<rparr>],
      t_Volumes = [], t_Inputs = None\<rparr>"

definition examplePipeline :: Pipeline where
  "examplePipeline =
     \<lparr>pl_APIVersion = [], pl_Kind = [], pl_Name = ''acme-myapp-master'', pl_Namespace = [],
      pl_UID = [], pl_Resources = [],
      pl_Tasks = [\<lparr>pt_Name = ''build'', pt_Inputs = [],
                    pt_TaskRef = \<lparr>ref_Name = ''build-task'', ref_Kind = ''Task'',
                                   ref_APIVersion = ''tekton.dev/v1alpha1''\<rparr>,
                    pt_Params = []\<rparr>]\<rparr>"

definition exampleStructure :: PipelineStructure where
  "exampleStructure =
     \<lparr>st_Name = ''structure'', st_PipelineRef = None, st_PipelineRunRef = None,
      st_OwnerReferences = []\<rparr>"

definition exampleResource :: PipelineResource where
  "exampleResource =
     \<lparr>r_APIVersion = ''tekton.dev/v1alpha1'', r_Kind = ''PipelineResource'',
      r_Name = ''acme-myapp-master'', r_Labels = Map.empty, r_Type = ''git'',
      r_Params = [\<lparr>p_Name = ''revision'', p_Value = ''master''\<rparr>,
                  \<lparr>p_Name = ''url'', p_Value = ''https://github.com/acme/myapp''\<rparr>]\<rparr>"




definition structureOf :: "error + (StepCreateTaskOptions \<times> 'w) \<Rightarrow> PipelineStructure option" where
  "structureOf r = (case r of Inl err \<Rightarrow> None | Inr (opts, w) \<Rightarrow> res_Structure (Results opts))"

section \<open>The injector as one fold\<close>



section \<open>One stage of the build-pack path\<close>


definition resourceBinding :: "PipelineResource \<Rightarrow> PipelineResourceBinding" where
  "resourceBinding resource =
     \<lparr>rb_Name = r_Name resource, rb_RefName = r_Name resource,
      rb_RefAPIVersion = r_APIVersion resource\<rparr>"


lemma Replace_scan_zero: "Replace_scan old new 0 s = s"
  by (induction s) auto

lemma Replace_scan_neg_cong:
  "n < 0 \<Longrightarrow> m < 0 \<Longrightarrow> Replace_scan old new n s = Replace_scan old new m s"
proof (induction old new n s arbitrary: m rule: Replace_scan.induct)
  case (1 old new n)
  then show ?case by simp
next
  case (2 old new n c cs)
  show ?case
  proof (cases "old \<noteq> [] \<and> prefix old (c # cs)")
    case True
    have "Replace_scan old new (n - 1) (drop (length old) (c # cs))
        = Replace_scan old new (m - 1) (drop (length old) (c # cs))"
      using "2.IH"(1)[of "m - 1"] True "2.prems" by simp
    then show ?thesis using True "2.prems" by simp
  next
    case False
    have "Replace_scan old new n cs = Replace_scan old new m cs"
      using "2.IH"(2)[of m] False "2.prems" by blast
    then show ?thesis using False by auto
  qed
qed

lemma Replace_scan_skip:
  "old \<noteq> [] \<Longrightarrow> hd old \<notin> set pre \<Longrightarrow>
   Replace_scan old new n (pre @ s) = pre @ Replace_scan old new n s"
  by (induction pre) (auto simp: neq_Nil_conv)

lemma prefix_Replace_scan:
  assumes "new = x # new'" and "x \<notin> set w" and "prefix w (Replace_scan old new n s)"
  shows "prefix w s"
  using assms(2,3)
proof (induction w arbitrary: s)
  case Nil
  then show ?case by simp
next
  case (Cons y w)
  show ?case
  proof (cases s)
    case Nil
    with Cons.prems show ?thesis by simp
  next
    case (Cons c cs)
    show ?thesis
    proof (cases "n \<noteq> 0 \<and> old \<noteq> [] \<and> prefix old (c # cs)")
      case True
      with Cons.prems \<open>s = c # cs\<close> assms(1) show ?thesis by simp
    next
      case False
      then have "Replace_scan old new n s = c # Replace_scan old new n cs"
        using \<open>s = c # cs\<close> by auto
      with Cons.prems have "y = c" and "prefix w (Replace_scan old new n cs)" by auto
      moreover have "x \<notin> set w" using Cons.prems by simp
      ultimately show ?thesis using Cons.IH[of cs] \<open>s = c # cs\<close> by simp
    qed
  qed
qed

lemma Replace_scan_keeps_absent:
  assumes new: "new = x # new'" and q: "q = y # w" "x \<notin> set w"
    and glue: "\<And>t. \<not> sublist q t \<Longrightarrow> \<not> sublist q (new @ t)"
  shows "\<not> sublist q s \<Longrightarrow> \<not> sublist q (Replace_scan old new n s)"
proof (induction "length s" arbitrary: s n rule: less_induct)
  case less
  show ?case
  proof (cases s)
    case Nil
    with less.prems show ?thesis by simp
  next
    case (Cons c cs)
    show ?thesis
    proof (cases "n \<noteq> 0 \<and> old \<noteq> [] \<and> prefix old (c # cs)")
      case True
      let ?rest = "drop (length old) (c # cs)"
      have "length ?rest < length s" using Cons True by (cases old) simp_all
      moreover have "\<not> sublist q ?rest"
        using less.prems Cons sublist_order.order.trans[OF _ sublist_drop] by blast
      ultimately have "\<not> sublist q (Replace_scan old new (n - 1) ?rest)"
        using less.hyps by blast
      then have "\<not> sublist q (new @ Replace_scan old new (n - 1) ?rest)"
        by (rule glue)
      then show ?thesis using True Cons by simp
    next
      case False
      then have out: "Replace_scan old new n s = c # Replace_scan old new n cs"
        using Cons by auto
      have ncs: "\<not> sublist q cs" and np: "\<not> prefix q (c # cs)"
        using less.prems Cons by (auto simp: sublist_Cons_right)
      have "\<not> sublist q (Replace_scan old new n cs)"
        using less.hyps[of cs n] ncs Cons by simp
      moreover have "\<not> prefix q (c # Replace_scan old new n cs)"
      proof
        assume "prefix q (c # Replace_scan old new n cs)"
        then have "c = y" and "prefix w (Replace_scan old new n cs)"
          using q(1) by auto
        then have "prefix w cs"
          using prefix_Replace_scan[OF new q(2)] by blast
        with \<open>c = y\<close> q(1) np show False by simp
      qed
      ultimately show ?thesis using out by (simp add: sublist_Cons_right)
    qed
  qed
qed

lemma Replace_scan_removes_all:
  assumes old: "old = y # w" "x \<notin> set w" and new: "new = x # new'"
    and glue: "\<And>t. \<not> sublist old t \<Longrightarrow> \<not> sublist old (new @ t)"
  shows "n < 0 \<Longrightarrow> \<not> sublist old (Replace_scan old new n s)"
proof (induction "length s" arbitrary: s n rule: less_induct)
  case less
  show ?case
  proof (cases s)
    case Nil
    then show ?thesis using old(1) by simp
  next
    case (Cons c cs)
    show ?thesis
    proof (cases "prefix old (c # cs)")
      case True
      let ?rest = "drop (length old) (c # cs)"
      have "length ?rest < length s" using Cons old(1) by simp
      then have "\<not> sublist old (Replace_scan old new (n - 1) ?rest)"
        using less.hyps[of ?rest "n - 1"] less.prems by simp
      then have "\<not> sublist old (new @ Replace_scan old new (n - 1) ?rest)"
        by (rule glue)
      then show ?thesis using True Cons old(1) less.prems by simp
    next
      case False
      then have out: "Replace_scan old new n s = c # Replace_scan old new n cs"
        using Cons by auto
      have "\<not> sublist old (Replace_scan old new n cs)"
        using less.hyps[of cs n] less.prems Cons by simp
      moreover have "\<not> prefix old (c # Replace_scan old new n cs)"
      proof
        assume "prefix old (c # Replace_scan old new n cs)"
        then have "c = y" and "prefix w (Replace_scan old new n cs)"
          using old(1) by auto
        then have "prefix w cs"
          using prefix_Replace_scan[OF new old(2)] by blast
        with \<open>c = y\<close> old(1) False show False by simp
      qed
      ultimately show ?thesis using out by (simp add: sublist_Cons_right)
    qed
  qed
qed

lemma glue_VERSION:
  assumes "q = CHR ''$'' # CHR ''('' # w" and "\<not> sublist q t"
  shows "\<not> sublist q (''${VERSION}'' @ t)"
  using assms by (simp add: sublist_Cons_right)

lemma Replace_version_text:
  "text \<in> set versionTexts \<Longrightarrow>
   Replace s text ''${VERSION}'' (- 1) = Replace_scan text ''${VERSION}'' (- 1) s"
  by (auto simp: versionTexts_def Replace_def)

lemma version_text_shape:
  "text \<in> set versionTexts \<Longrightarrow>
   \<exists>w. text = CHR ''$'' # CHR ''('' # w \<and> CHR ''$'' \<notin> set (CHR ''('' # w)"
  by (auto simp: versionTexts_def)

lemma Replace_version_text_removes:
  assumes "text \<in> set versionTexts"
  shows "\<not> sublist text (Replace s text ''${VERSION}'' (- 1))"
proof -
  obtain w where w: "text = CHR ''$'' # CHR ''('' # w" "CHR ''$'' \<notin> set (CHR ''('' # w)"
    using version_text_shape[OF assms] by blast
  have g: "\<And>t. \<not> sublist text t \<Longrightarrow> \<not> sublist text (''${VERSION}'' @ t)"
    using glue_VERSION[OF w(1)] by blast
  have n: "''${VERSION}'' = CHR ''$'' # ''{VERSION}''" by simp
  have "\<not> sublist text (Replace_scan text ''${VERSION}'' (- 1) s)"
    using Replace_scan_removes_all[OF w(1) w(2) n g, of "- 1" s] by simp
  then show ?thesis by (simp add: Replace_version_text[OF assms])
qed

lemma Replace_version_text_keeps_absent:
  assumes "text \<in> set versionTexts" and "other \<in> set versionTexts"
    and "\<not> sublist text s"
  shows "\<not> sublist text (Replace s other ''${VERSION}'' (- 1))"
proof -
  obtain w where w: "text = CHR ''$'' # CHR ''('' # w" "CHR ''$'' \<notin> set (CHR ''('' # w)"
    using version_text_shape[OF assms(1)] by blast
  have g: "\<And>t. \<not> sublist text t \<Longrightarrow> \<not> sublist text (''${VERSION}'' @ t)"
    using glue_VERSION[OF w(1)] by blast
  have n: "''${VERSION}'' = CHR ''$'' # ''{VERSION}''" by simp
  have "\<not> sublist text (Replace_scan other ''${VERSION}'' (- 1) s)"
    using Replace_scan_keeps_absent[OF n w(1) w(2) g assms(3), of other "- 1"] by simp
  then show ?thesis by (simp add: Replace_version_text[OF assms(2)])
qed

lemma replaceCommandText_no_version_text:
  assumes "text \<in> set versionTexts"
  shows "\<not> sublist text (replaceCommandText step)"
proof -
  define s0 where "s0 = Replace (Replace (step_Command step) [CHR 0x5C, CHR ''$''] ''$'' (- 1))
     ''export VERSION=`cat VERSION` && '' [] 1"
  define s1 where "s1 = Replace s0 ''$(cat VERSION)'' ''${VERSION}'' (- 1)"
  define s2 where "s2 = Replace s1 ''$(cat ../VERSION)'' ''${VERSION}'' (- 1)"
  define s3 where "s3 = Replace s2 ''$(cat ../../VERSION)'' ''${VERSION}'' (- 1)"
  have out: "replaceCommandText step = s3"
    by (simp add: replaceCommandText_def s0_def s1_def s2_def s3_def)
  have m: "''$(cat VERSION)'' \<in> set versionTexts" "''$(cat ../VERSION)'' \<in> set versionTexts"
    "''$(cat ../../VERSION)'' \<in> set versionTexts"
    by (simp_all add: versionTexts_def)
  have a1: "\<not> sublist ''$(cat VERSION)'' s1"
    unfolding s1_def by (rule Replace_version_text_removes[OF m(1)])
  have a2: "\<not> sublist ''$(cat VERSION)'' s2"
    unfolding s2_def by (rule Replace_version_text_keeps_absent[OF m(1) m(2) a1])
  have a3: "\<not> sublist ''$(cat VERSION)'' s3"
    unfolding s3_def by (rule Replace_version_text_keeps_absent[OF m(1) m(3) a2])
  have b2: "\<not> sublist ''$(cat ../VERSION)'' s2"
    unfolding s2_def by (rule Replace_version_text_removes[OF m(2)])
  have b3: "\<not> sublist ''$(cat ../VERSION)'' s3"
    unfolding s3_def by (rule Replace_version_text_keeps_absent[OF m(2) m(3) b2])
  have c3: "\<not> sublist ''$(cat ../../VERSION)'' s3"
    unfolding s3_def by (rule Replace_version_text_removes[OF m(3)])
  from assms consider "text = ''$(cat VERSION)''" | "text = ''$(cat ../VERSION)''"
    | "text = ''$(cat ../../VERSION)''"
    by (auto simp: versionTexts_def)
  then show ?thesis using a3 b3 c3 out by cases simp_all
qed

lemma Replace_scan_no_match:
  "c \<in> set old \<Longrightarrow> c \<notin> set s \<Longrightarrow> Replace_scan old new n s = s"
proof (induction s)
  case Nil
  then show ?case by simp
next
  case (Cons a s)
  have "\<not> prefix old (a # s)"
  proof
    assume "prefix old (a # s)"
    then have "set old \<subseteq> set (a # s)" by (rule set_mono_prefix)
    with Cons.prems show False by auto
  qed
  with Cons show ?case by simp
qed

lemma set_Replace_scan: "set (Replace_scan old new n s) \<subseteq> set s \<union> set new"
proof (induction old new n s rule: Replace_scan.induct)
  case (1 old new n)
  then show ?case by simp
next
  case (2 old new n c cs)
  show ?case
  proof (cases "n \<noteq> 0 \<and> old \<noteq> [] \<and> prefix old (c # cs)")
    case True
    have "set (drop (length old) (c # cs)) \<subseteq> set (c # cs)" by (rule set_drop_subset)
    with "2.IH"(1) True show ?thesis by auto
  next
    case False
    with "2.IH"(2) show ?thesis by auto
  qed
qed

lemma Replace_scan_pair_append:
  assumes "x \<noteq> y" and "n < 0"
  shows "Replace_scan [x, y] new n (a @ [x, y] @ b)
       = Replace_scan [x, y] new n a @ new @ Replace_scan [x, y] new n b"
  using assms(2)
proof (induction "length a" arbitrary: a n rule: less_induct)
  case less
  show ?case
  proof (cases a)
    case Nil
    then show ?thesis
      using less.prems Replace_scan_neg_cong[of "n - 1" n "[x, y]" new b] by simp
  next
    case (Cons c cs)
    show ?thesis
    proof (cases "prefix [x, y] (c # cs)")
      case True
      then obtain r where r: "cs = y # r" and c: "c = x"
        by (cases cs) auto
      have "Replace_scan [x, y] new (n - 1) (r @ [x, y] @ b)
          = Replace_scan [x, y] new (n - 1) r @ new @ Replace_scan [x, y] new (n - 1) b"
        using less.hyps[of r "n - 1"] less.prems Cons r by simp
      moreover have "Replace_scan [x, y] new (n - 1) b = Replace_scan [x, y] new n b"
        using less.prems by (intro Replace_scan_neg_cong) simp_all
      ultimately show ?thesis using Cons r c less.prems by simp
    next
      case False
      have nm: "\<not> prefix [x, y] (c # cs @ [x, y] @ b)"
      proof (cases cs)
        case Nil
        then show ?thesis using assms(1) by simp
      next
        case (Cons d ds)
        then show ?thesis using False by simp
      qed
      have ih: "Replace_scan [x, y] new n (cs @ [x, y] @ b)
          = Replace_scan [x, y] new n cs @ new @ Replace_scan [x, y] new n b"
        using less.hyps[of cs n] less.prems Cons by simp
      have lhs: "Replace_scan [x, y] new n ((c # cs) @ [x, y] @ b)
          = c # Replace_scan [x, y] new n (cs @ [x, y] @ b)"
        using nm by auto
      have rhs: "Replace_scan [x, y] new n (c # cs) = c # Replace_scan [x, y] new n cs"
        using False by auto
      show ?thesis unfolding Cons lhs rhs ih by simp
    qed
  qed
qed

lemma replaceCommandText_plain:
  assumes "CHR 0x60 \<notin> set s" and "CHR ''('' \<notin> set s"
  shows "replaceCommandText (PipelineStep nm s d ct wh ss)
       = Replace_scan [CHR 0x5C, CHR ''$''] ''$'' (- 1) s"
proof -
  define u where "u = Replace_scan [CHR 0x5C, CHR ''$''] ''$'' (- 1) s"
  have sub: "set u \<subseteq> set s \<union> {CHR ''$''}"
    using set_Replace_scan[of "[CHR 0x5C, CHR ''$'']" "''$''" "- 1" s] by (simp add: u_def)
  have bq: "CHR 0x60 \<notin> set u" and par: "CHR ''('' \<notin> set u"
    using sub assms by auto
  have r1: "Replace s [CHR 0x5C, CHR ''$''] ''$'' (- 1) = u"
    by (simp add: Replace_def u_def)
  have r2: "Replace u ''export VERSION=`cat VERSION` && '' [] 1 = u"
    using Replace_scan_no_match[of "CHR 0x60" _ u, OF _ bq] by (simp add: Replace_def)
  have r3: "Replace u ''$(cat VERSION)'' ''${VERSION}'' (- 1) = u"
    "Replace u ''$(cat ../VERSION)'' ''${VERSION}'' (- 1) = u"
    "Replace u ''$(cat ../../VERSION)'' ''${VERSION}'' (- 1) = u"
    using Replace_scan_no_match[of "CHR ''(''" _ u, OF _ par] by (simp_all add: Replace_def)
  show ?thesis
    by (simp add: replaceCommandText_def r1 r2 r3) (simp add: u_def)
qed

lemma replaceCommandText_unescapes:
  assumes "CHR 0x60 \<notin> set (a @ b)" and "CHR ''('' \<notin> set (a @ b)"
  shows "replaceCommandText (PipelineStep nm (a @ [CHR 0x5C, CHR ''$''] @ b) d ct wh ss)
       = replaceCommandText (PipelineStep nm a d ct wh ss) @ ''$''
         @ replaceCommandText (PipelineStep nm b d ct wh ss)"
proof -
  have "CHR 0x60 \<notin> set (a @ [CHR 0x5C, CHR ''$''] @ b)"
    and "CHR ''('' \<notin> set (a @ [CHR 0x5C, CHR ''$''] @ b)"
    using assms by auto
  then have "replaceCommandText (PipelineStep nm (a @ [CHR 0x5C, CHR ''$''] @ b) d ct wh ss)
      = Replace_scan [CHR 0x5C, CHR ''$''] ''$'' (- 1) (a @ [CHR 0x5C, CHR ''$''] @ b)"
    by (rule replaceCommandText_plain)
  also have "\<dots> = Replace_scan [CHR 0x5C, CHR ''$''] ''$'' (- 1) a @ ''$''
      @ Replace_scan [CHR 0x5C, CHR ''$''] ''$'' (- 1) b"
    by (rule Replace_scan_pair_append) simp_all
  also have "\<dots> = replaceCommandText (PipelineStep nm a d ct wh ss) @ ''$''
         @ replaceCommandText (PipelineStep nm b d ct wh ss)"
    using assms by (simp add: replaceCommandText_plain)
  finally show ?thesis .
qed

lemma Replace_scan_absent: "\<not> sublist old s \<Longrightarrow> Replace_scan old new n s = s"
  by (induction s) (auto simp: sublist_Cons_right)

lemma Replace_scan_first:
  "old \<noteq> [] \<Longrightarrow> n \<noteq> 0 \<Longrightarrow>
   Replace_scan old new n (old @ t) = new @ Replace_scan old new (n - 1) t"
  by (cases old) simp_all

lemma replaceCommandText_removes_prefix:
  assumes "\<not> sublist ''export VERSION=`cat VERSION` && '' rest"
  shows "replaceCommandText (PipelineStep nm (''export VERSION=`cat VERSION` && '' @ rest) d ct wh ss)
       = replaceCommandText (PipelineStep nm rest d ct wh ss)"
proof -
  define P where "P = ''export VERSION=`cat VERSION` && ''"
  define esc where "esc = [CHR 0x5C, CHR ''$'']"
  define u where "u = Replace_scan esc ''$'' (- 1) rest"
  have P_shape: "P = CHR ''e'' # tl P" "CHR ''$'' \<notin> set (tl P)" "P \<noteq> []" "P \<noteq> []"
    "CHR 0x5C \<notin> set P"
    by (simp_all add: P_def)
  have absent: "\<not> sublist P rest" using assms by (simp add: P_def)
  have glue: "\<And>t. \<not> sublist P t \<Longrightarrow> \<not> sublist P (''$'' @ t)"
    by (subst P_shape(1), subst (asm) P_shape(1)) (simp add: sublist_Cons_right)
  have u_absent: "\<not> sublist P u"
    unfolding u_def
    by (rule Replace_scan_keeps_absent[OF _ P_shape(1) P_shape(2) glue absent]) simp
  have skip: "Replace_scan esc ''$'' (- 1) (P @ rest) = P @ u"
    unfolding u_def by (rule Replace_scan_skip) (simp_all add: esc_def P_shape(5))
  have r1: "Replace (P @ rest) esc ''$'' (- 1) = P @ u"
    using skip by (simp add: Replace_def esc_def)
  have r1': "Replace rest esc ''$'' (- 1) = u"
    by (simp add: Replace_def esc_def u_def)
  have r2: "Replace (P @ u) P [] 1 = u"
    using Replace_scan_first[of P 1 "[]" u] P_shape(3)
    by (simp add: Replace_def Replace_scan_zero)
  have r2': "Replace u P [] 1 = u"
    using Replace_scan_absent[OF u_absent] P_shape(3) by (simp add: Replace_def)
  have "replaceCommandText (PipelineStep nm (P @ rest) d ct wh ss)
      = replaceCommandText (PipelineStep nm rest d ct wh ss)"
    unfolding replaceCommandText_def PipelineStep.sel esc_def[symmetric] P_def[symmetric]
      r1 r1' Let_def r2 r2' ..
  then show ?thesis by (simp add: P_def)
qed

lemma replaceCommandText_examples:
  "replaceCommandText (PipelineStep nm ''export VERSION=`cat VERSION` && npm test'' d ct wh ss)
     = ''npm test''"
  "replaceCommandText (PipelineStep nm ''echo $(cat VERSION)'' d ct wh ss) = ''echo ${VERSION}''"
  by (simp_all add: replaceCommandText_def Replace_def)

section \<open>What the step compiler leaves alone\<close>







section \<open>The setversion stage on the build-pack path\<close>





section \<open>A pipeline kind without lifecycles\<close>




section \<open>Pod template resolution\<close>

lemma createSteps_podTemplate_none:
  assumes "containerName \<noteq> []"
    and "PodTemplates opts containerName = None" and "PodTemplates opts (defaultContainerName env) = None"
  shows "createSteps_podTemplate env opts containerName = Inl (Panic ''nil pointer dereference'')"
  using assms by (simp add: createSteps_podTemplate_def Warnf_def)

lemma createSteps_inherit_PodTemplates:
  "createSteps_inherit opts step containerName dir = (cn, d, opts') \<Longrightarrow>
   PodTemplates opts' = PodTemplates opts
   \<and> cn = (if step_Container step \<noteq> [] then step_Container step else containerName)"
  by (auto simp: createSteps_inherit_def Warnf_def Let_def split: option.splits)

lemma createSteps_own_no_template:
  assumes "step_Command step \<noteq> []" and "step_Container step = []" and "containerName \<noteq> []"
    and "PodTemplates opts containerName = None" and "PodTemplates opts (defaultContainerName env) = None"
  shows "createSteps_own env opts step containerName dir prefixPath
       = Inl (Panic ''nil pointer dereference'')"
proof -
  obtain cn d opts' where i: "createSteps_inherit opts step containerName dir = (cn, d, opts')"
    by (cases "createSteps_inherit opts step containerName dir") auto
  from createSteps_inherit_PodTemplates[OF i] assms(2)
  have "PodTemplates opts' = PodTemplates opts" and "cn = containerName" by simp_all
  then have "createSteps_podTemplate env opts' cn = Inl (Panic ''nil pointer dereference'')"
    using assms(3,4,5) by (simp add: createSteps_podTemplate_none)
  then show ?thesis using assms(1) by (simp add: createSteps_own_def i)
qed

lemma createSteps_no_template:
  assumes "step_Command step \<noteq> []" and "step_Container step = []" and "containerName \<noteq> []"
    and "PodTemplates opts containerName = None" and "PodTemplates opts (defaultContainerName env) = None"
  shows "createSteps env opts (Some step) containerName dir prefixPath
       = Inl (Panic ''nil pointer dereference'')"
  using createSteps_own_no_template[OF assms] by (cases step) simp

text \<open>
  Claim C3 (the code departs from it). A leaf step whose container name has no pod template
  is compiled from the default template, and compilation is to fail only with an error
  value, never by a crash. With a pod-template map that holds neither the requested name
  nor the default one, \<open>createSteps\<close> dereferences the missing default template: the
  result is a run-time panic, not the \<open>NoContainers\<close> error.
\<close>

theorem createSteps_panics_without_default_template:
  "failure (createSteps exampleEnv (exampleOptions\<lparr>PodTemplates := Map.empty\<rparr>)
      (Some (PipelineStep ''build'' ''mvn install'' [] [] [] []))
      ''maven'' ''/workspace/source'' ''build'')
   = Some (Panic ''nil pointer dereference'')"
  by code_simp

text \<open>
  The rest of the claim holds: with a default template that has a container, the missing
  name is recorded and the default template's container is used.
\<close>

lemma createSteps_uses_default_template:
  "stepImages (createSteps exampleEnv exampleOptions
      (Some (PipelineStep ''build'' ''gradle build'' [] [] [] []))
      ''gradle'' ''/workspace/source'' ''build'') = [''builder:1'']
   \<and> (case createSteps exampleEnv exampleOptions
      (Some (PipelineStep ''build'' ''gradle build'' [] [] [] []))
      ''gradle'' ''/workspace/source'' ''build'' of
         Inl err \<Rightarrow> None
       | Inr (steps, volumes, opts) \<Rightarrow> MissingPodTemplates opts ''gradle'') = Some True"
  by code_simp

section \<open>Inheritance of container and directory\<close>

lemma createSteps_inherit_ignores_Dir:
  "ct \<noteq> [] \<Longrightarrow>
   createSteps_inherit opts (PipelineStep nm cmd sdir ct wh children) containerName dir
   = createSteps_inherit opts (PipelineStep nm cmd [] ct wh children) containerName dir"
  by (simp add: createSteps_inherit_def)

lemma createSteps_container_ignores_Dir:
  "createSteps_container env opts (PipelineStep nm cmd sdir ct wh children) c volumes dir prefixPath
   = createSteps_container env opts (PipelineStep nm cmd [] ct wh children) c volumes dir prefixPath"
  unfolding createSteps_container_def replaceCommandText_def PipelineStep.sel
  by (rule refl)

lemma createSteps_own_ignores_Dir:
  assumes "ct \<noteq> []"
  shows "createSteps_own env opts (PipelineStep nm cmd sdir ct wh children) containerName dir prefixPath
   = createSteps_own env opts (PipelineStep nm cmd [] ct wh children) containerName dir prefixPath"
  unfolding createSteps_own_def
    createSteps_inherit_ignores_Dir[OF assms, of opts nm cmd sdir wh children containerName dir]
    createSteps_container_ignores_Dir[of _ _ nm cmd sdir ct wh children]
    PipelineStep.sel
  by (rule refl)

lemma createSteps_ignores_Dir:
  "ct \<noteq> [] \<Longrightarrow>
   createSteps env opts (Some (PipelineStep nm cmd sdir ct wh children)) containerName dir prefixPath
   = createSteps env opts (Some (PipelineStep nm cmd [] ct wh children)) containerName dir prefixPath"
  using createSteps_own_ignores_Dir[of ct env opts nm cmd sdir wh children containerName dir prefixPath]
  by simp

text \<open>
  Claim C4 (the code departs from it). A step's \<open>Container\<close> and \<open>Dir\<close> are to
  override what it inherits and to be passed on to its children, also when a step sets
  both. The code tests \<open>Dir\<close> only in the \<open>else\<close> branch of the test of
  \<open>Container\<close>: a grouping step that sets both passes its container on to its child
  but not its directory, while the same step without a container passes the directory on.
\<close>

theorem createSteps_drops_Dir_when_Container_set:
  "stepDirs (createSteps exampleEnv exampleOptions
      (Some (PipelineStep ''charts'' [] ''/workspace/source/charts'' ''maven'' []
         [Some (PipelineStep ''lint'' ''helm lint'' [] [] [] [])]))
      ''default'' ''/workspace/source'' ''build'') = [''/workspace/source'']
   \<and> stepImages (createSteps exampleEnv exampleOptions
      (Some (PipelineStep ''charts'' [] ''/workspace/source/charts'' ''maven'' []
         [Some (PipelineStep ''lint'' ''helm lint'' [] [] [] [])]))
      ''default'' ''/workspace/source'' ''build'') = [''maven:3'']
   \<and> stepDirs (createSteps exampleEnv exampleOptions
      (Some (PipelineStep ''charts'' [] ''/workspace/source/charts'' [] []
         [Some (PipelineStep ''lint'' ''helm lint'' [] [] [] [])]))
      ''default'' ''/workspace/source'' ''build'') = [''/workspace/source/charts'']"
  by code_simp

section \<open>Version resolution\<close>



section \<open>The VERSION file\<close>

lemma runStepCommand_only_logs:
  "runStepCommand env step (opts, w) = Inr (opts', w') \<Longrightarrow> opts' = opts\<lparr>log := log opts'\<rparr>"
  by (auto simp: runStepCommand_def Infof_def Let_def split: if_splits sum.splits)

lemma invokeSteps_only_logs:
  "invokeSteps env steps st = Inr st' \<Longrightarrow> fst st' = (fst st)\<lparr>log := log (fst st')\<rparr>"
  "invokeSteps_body env s st = Inr st' \<Longrightarrow> fst st' = (fst st)\<lparr>log := log (fst st')\<rparr>"
proof (induction env steps st and env s st arbitrary: st' and st' rule: invokeSteps_invokeSteps_body.induct)
  case (1 env st)
  then show ?case by simp
next
  case (2 env s steps st)
  from "2.prems" obtain st1 where s1: "invokeSteps_body env s st = Inr st1"
    and s2: "invokeSteps env steps st1 = Inr st'"
    by (auto split: sum.splits)
  from "2.IH"(1)[OF s1] have a: "fst st1 = (fst st)\<lparr>log := log (fst st1)\<rparr>" .
  from "2.IH"(2)[OF s1 s2] have b: "fst st' = (fst st1)\<lparr>log := log (fst st')\<rparr>" .
  show ?case by (subst b, subst a) simp
next
  case (3 env st)
  then show ?case by simp
next
  case (4 env nm cmd sdir ct wh children st)
  let ?step = "PipelineStep nm cmd sdir ct wh children"
  obtain st1 where s1: "(if length children > 0 then invokeSteps env children st else Inr st) = Inr st1"
    and s2: "(if TrimSpace wh = ''!prow'' \<or> cmd = [] then Inr st1 else runStepCommand env ?step st1) = Inr st'"
    using "4.prems" by (auto simp: Let_def split: sum.splits)
  have a: "fst st1 = (fst st)\<lparr>log := log (fst st1)\<rparr>"
  proof (cases "length children > 0")
    case True
    then show ?thesis using "4.IH"[of st1] s1 by simp
  next
    case False
    then show ?thesis using s1 by simp
  qed
  have b: "fst st' = (fst st1)\<lparr>log := log (fst st')\<rparr>"
  proof (cases "TrimSpace wh = ''!prow'' \<or> cmd = []")
    case True
    then show ?thesis using s2 by simp
  next
    case False
    then have "runStepCommand env ?step (fst st1, snd st1) = Inr (fst st', snd st')"
      using s2 by simp
    then show ?thesis by (rule runStepCommand_only_logs)
  qed
  show ?case by (subst b, subst a) simp
qed

lemma setVersion_after_steps:
  assumes "PipelineKind opts = PipelineKindRelease" and "\<not> NoSetVersion opts" and "\<not> ViewSteps opts"
    and "Release (Pipelines cfg) = Some release" and "SetVersion release = Some sv"
    and "invokeSteps env (lc_Steps sv) (opts, w) = Inr (opts1, w1)"
    and "FileExists env (Join [Dir opts1, ''VERSION'']) w1 = Inr True"
    and "ReadFile env (Join [Dir opts1, ''VERSION'']) w1 = Inr data"
  shows "setVersionOnReleasePipelines env opts cfg w =
     (if TrimSpace data = []
      then Inr (Warnf (''versions file '' @ Join [Dir opts1, ''VERSION''] @ '' is empty!'') opts1, w1)
      else Inr (opts1\<lparr>Results := (Results opts1)\<lparr>res_PipelineParams :=
                        res_PipelineParams (Results opts1)
                          @ [\<lparr>p_Name = ''version'', p_Value = TrimSpace data\<rparr>]\<rparr>,
                      Revision := ''v'' @ TrimSpace data\<rparr>, w1))"
  using assms by (simp add: setVersionOnReleasePipelines_def Let_def)

text \<open>
  Claim C6. For the release kind, once the setversion steps have succeeded and a VERSION
  file is found in the working directory and read: if its trimmed contents are not empty,
  they are appended as the \<open>version\<close> pipeline parameter and the revision becomes
  \<open>v\<close> followed by them; if the file is empty or all white space, a warning is
  logged, the parameters are those of before and the revision is left unchanged.
\<close>

theorem setVersion_reads_VERSION_file:
  assumes "PipelineKind opts = PipelineKindRelease" and "\<not> NoSetVersion opts" and "\<not> ViewSteps opts"
    and "Release (Pipelines cfg) = Some release" and "SetVersion release = Some sv"
    and "invokeSteps env (lc_Steps sv) (opts, w) = Inr (opts1, w1)"
    and "FileExists env (Join [Dir opts1, ''VERSION'']) w1 = Inr True"
    and "ReadFile env (Join [Dir opts1, ''VERSION'']) w1 = Inr data"
  shows "\<exists>opts2. setVersionOnReleasePipelines env opts cfg w = Inr (opts2, w1)
       \<and> (TrimSpace data \<noteq> [] \<longrightarrow>
            res_PipelineParams (Results opts2)
              = res_PipelineParams (Results opts) @ [\<lparr>p_Name = ''version'', p_Value = TrimSpace data\<rparr>]
          \<and> Revision opts2 = ''v'' @ TrimSpace data)
       \<and> (TrimSpace data = [] \<longrightarrow>
            res_PipelineParams (Results opts2) = res_PipelineParams (Results opts)
          \<and> Revision opts2 = Revision opts
          \<and> log opts2 = log opts1
               @ [''WARNING: versions file '' @ Join [Dir opts, ''VERSION''] @ '' is empty!''])"
proof -
  have "fst (opts1, w1) = (fst (opts, w))\<lparr>log := log (fst (opts1, w1))\<rparr>"
    using assms(6) by (rule invokeSteps_only_logs(1))
  then have o1: "opts1 = opts\<lparr>log := log opts1\<rparr>" by simp
  have same: "Results opts1 = Results opts" "Revision opts1 = Revision opts" "Dir opts1 = Dir opts"
    by (subst o1, simp)+
  show ?thesis
  proof (cases "TrimSpace data = []")
    case True
    then show ?thesis
      using setVersion_after_steps[OF assms] same by (simp add: Warnf_def)
  next
    case False
    then show ?thesis
      using setVersion_after_steps[OF assms] same by simp
  qed
qed

lemma example_invokeSteps:
  "invokeSteps exampleEnv (lc_Steps \<lparr>lc_Steps = [Some (PipelineStep ''next-version'' ''jx step next-version'' [] [] [] [])]\<rparr>)
     (exampleOptions, exampleWorld\<lparr>w_VERSION := Some data\<rparr>)
   = Inr (exampleOptions\<lparr>log := [''running command: jx step next-version'', []]\<rparr>,
          exampleWorld\<lparr>w_VERSION := Some data, w_commands := [''/bin/sh -c jx step next-version'']\<rparr>)"
  by (simp add: runStepCommand_def exampleEnv_def exampleOptions_def exampleWorld_def Infof_def
        TrimSpace_def trimLeft.simps spaceWidth_def spaceSeqs_def Replace_def Let_def)

theorem setVersion_reads_VERSION_file_witness:
  "PipelineKind exampleOptions = PipelineKindRelease
   \<and> \<not> NoSetVersion exampleOptions \<and> \<not> ViewSteps exampleOptions
   \<and> Release (Pipelines exampleConfig) = Some exampleLifecycles
   \<and> TrimSpace (''1.2.3'' @ [CHR 0x0A]) = ''1.2.3''
   \<and> map_option (\<lambda>opts. (res_PipelineParams (Results opts), Revision opts))
         (optionsOf (setVersionOnReleasePipelines exampleEnv exampleOptions exampleConfig
            (exampleWorld\<lparr>w_VERSION := Some (''1.2.3'' @ [CHR 0x0A])\<rparr>)))
       = Some ([\<lparr>p_Name = ''version'', p_Value = ''1.2.3''\<rparr>], ''v1.2.3'')
   \<and> TrimSpace ('' '' @ [CHR 0x0A]) = []
   \<and> map_option (\<lambda>opts. (res_PipelineParams (Results opts), Revision opts, last (log opts)))
         (optionsOf (setVersionOnReleasePipelines exampleEnv exampleOptions exampleConfig
            (exampleWorld\<lparr>w_VERSION := Some ('' '' @ [CHR 0x0A])\<rparr>)))
       = Some ([], [], ''WARNING: versions file /src/VERSION is empty!'')"
proof -
  let ?sv = "\<lparr>lc_Steps = [Some (PipelineStep ''next-version'' ''jx step next-version'' [] [] [] [])]\<rparr>"
  let ?o1 = "exampleOptions\<lparr>log := [''running command: jx step next-version'', []]\<rparr>"
  have h: "PipelineKind exampleOptions = PipelineKindRelease"
    "\<not> NoSetVersion exampleOptions" "\<not> ViewSteps exampleOptions"
    by (simp_all add: exampleOptions_def PipelineKindRelease_def)
  have c: "Release (Pipelines exampleConfig) = Some exampleLifecycles"
    "SetVersion exampleLifecycles = Some ?sv"
    by (simp_all add: exampleConfig_def exampleLifecycles_def)
  have p: "Join [Dir ?o1, ''VERSION''] = ''/src/VERSION''" "Join [Dir exampleOptions, ''VERSION''] = ''/src/VERSION''"
    by (simp_all add: exampleOptions_def Join_def Clean_def)
  have f: "\<And>data. FileExists exampleEnv (Join [Dir ?o1, ''VERSION''])
        (exampleWorld\<lparr>w_VERSION := Some data, w_commands := [''/bin/sh -c jx step next-version'']\<rparr>) = Inr True"
    "\<And>data. ReadFile exampleEnv (Join [Dir ?o1, ''VERSION''])
        (exampleWorld\<lparr>w_VERSION := Some data, w_commands := [''/bin/sh -c jx step next-version'']\<rparr>) = Inr data"
    unfolding p by (simp_all add: exampleEnv_def)
  have t: "TrimSpace (''1.2.3'' @ [CHR 0x0A]) = ''1.2.3''" "TrimSpace ('' '' @ [CHR 0x0A]) = []"
    by (simp_all add: TrimSpace_def trimLeft.simps spaceWidth_def spaceSeqs_def)
  have e: "res_PipelineParams (Results exampleOptions) = []" "Revision exampleOptions = []"
    by (simp_all add: exampleOptions_def)
  from setVersion_reads_VERSION_file[OF h c example_invokeSteps f(1) f(2), of "''1.2.3'' @ [CHR 0x0A]"]
  obtain a where a: "setVersionOnReleasePipelines exampleEnv exampleOptions exampleConfig
        (exampleWorld\<lparr>w_VERSION := Some (''1.2.3'' @ [CHR 0x0A])\<rparr>) = Inr (a,
          exampleWorld\<lparr>w_VERSION := Some (''1.2.3'' @ [CHR 0x0A]), w_commands := [''/bin/sh -c jx step next-version'']\<rparr>)"
    "res_PipelineParams (Results a) = [\<lparr>p_Name = ''version'', p_Value = ''1.2.3''\<rparr>]"
    "Revision a = ''v1.2.3''"
    unfolding t e by auto
  from setVersion_reads_VERSION_file[OF h c example_invokeSteps f(1) f(2), of "'' '' @ [CHR 0x0A]"]
  obtain b where b: "setVersionOnReleasePipelines exampleEnv exampleOptions exampleConfig
        (exampleWorld\<lparr>w_VERSION := Some ('' '' @ [CHR 0x0A])\<rparr>) = Inr (b,
          exampleWorld\<lparr>w_VERSION := Some ('' '' @ [CHR 0x0A]), w_commands := [''/bin/sh -c jx step next-version'']\<rparr>)"
    "res_PipelineParams (Results b) = []" "Revision b = []"
    "log b = log ?o1 @ [''WARNING: versions file '' @ ''/src/VERSION'' @ '' is empty!'']"
    unfolding t e p by auto
  have la: "last (log b) = ''WARNING: versions file /src/VERSION is empty!''"
    unfolding b(4) by simp
  show ?thesis
    using h c(1) t a b(1,2,3) la by (simp add: optionsOf_def)
qed

section \<open>Idempotence of the injector\<close>
















subsection \<open>Volumes\<close>







section \<open>Command-text normalisation\<close>

lemma drop_prefix_append:
  "length p \<le> length xs \<Longrightarrow> drop (length p) (xs @ ys) = drop (length p) xs @ ys"
  by simp

lemma prefix_not_straddling:
  assumes "m \<notin> set (tl old)" and "prefix old (c # cs @ m # r)"
  shows "prefix old (c # cs)"
proof -
  from assms(2) have "prefix old ((c # cs) @ (m # r))" by simp
  then consider "prefix old (c # cs)" | us where "old = (c # cs) @ us" "prefix us (m # r)"
    unfolding prefix_append by blast
  then show ?thesis
  proof cases
    case 1
    then show ?thesis .
  next
    case 2
    show ?thesis
    proof (cases us)
      case Nil
      with 2 show ?thesis by simp
    next
      case (Cons x xs)
      with 2 have "x = m" by simp
      with 2(1) Cons have "m \<in> set (tl old)" by simp
      with assms(1) show ?thesis by simp
    qed
  qed
qed

lemma Replace_scan_append_neg:
  assumes "m \<notin> set (tl old)" and "n < 0"
  shows "Replace_scan old new n (u @ m # r)
       = Replace_scan old new n u @ Replace_scan old new n (m # r)"
  using assms(2)
proof (induction "length u" arbitrary: u n rule: less_induct)
  case less
  show ?case
  proof (cases u)
    case Nil
    then show ?thesis by simp
  next
    case (Cons c cs)
    show ?thesis
    proof (cases "old \<noteq> [] \<and> prefix old (c # cs)")
      case True
      let ?rest = "drop (length old) (c # cs)"
      have le: "length old \<le> length (c # cs)" using True by (auto dest: prefix_length_le)
      have pre: "prefix old (c # cs @ m # r)"
        using True prefix_prefix[of old "c # cs" "m # r"] by simp
      have dr: "drop (length old) (c # cs @ m # r) = ?rest @ m # r"
        using drop_prefix_append[OF le, of "m # r"] by simp
      have "length ?rest < length u" using True Cons by (cases old) simp_all
      then have ih: "Replace_scan old new (n - 1) (?rest @ m # r)
          = Replace_scan old new (n - 1) ?rest @ Replace_scan old new (n - 1) (m # r)"
        using less.hyps[of ?rest "n - 1"] less.prems by simp
      have cong: "Replace_scan old new (n - 1) (m # r) = Replace_scan old new n (m # r)"
        using less.prems by (intro Replace_scan_neg_cong) simp_all
      have lhs: "Replace_scan old new n (c # cs @ m # r)
          = new @ Replace_scan old new (n - 1) (?rest @ m # r)"
        using True pre less.prems by (simp add: dr)
      have rhs: "Replace_scan old new n (c # cs) = new @ Replace_scan old new (n - 1) ?rest"
        using True less.prems by simp
      show ?thesis unfolding Cons append_Cons lhs rhs ih cong by simp
    next
      case False
      have nm: "\<not> (old \<noteq> [] \<and> prefix old (c # cs @ m # r))"
        using False prefix_not_straddling[OF assms(1)] by blast
      have lhs: "Replace_scan old new n (c # cs @ m # r)
          = c # Replace_scan old new n (cs @ m # r)"
        using nm by auto
      have rhs: "Replace_scan old new n (c # cs) = c # Replace_scan old new n cs"
        using False by auto
      have ih: "Replace_scan old new n (cs @ m # r)
          = Replace_scan old new n cs @ Replace_scan old new n (m # r)"
        using less.hyps[of cs n] Cons less.prems by simp
      show ?thesis unfolding Cons append_Cons lhs rhs ih by simp
    qed
  qed
qed

lemma Replace_scan_append_once:
  assumes "m \<notin> set (tl old)" and "old \<noteq> []"
  shows "Replace_scan old new 1 (u @ m # r)
       = (if sublist old u then Replace_scan old new 1 u @ m # r
          else u @ Replace_scan old new 1 (m # r))"
proof (induction u)
  case Nil
  then show ?case using assms(2) by simp
next
  case (Cons c cs)
  show ?case
  proof (cases "prefix old (c # cs)")
    case True
    have le: "length old \<le> length (c # cs)" using True by (auto dest: prefix_length_le)
    have pre: "prefix old (c # cs @ m # r)"
      using True prefix_prefix[of old "c # cs" "m # r"] by simp
    have dr: "drop (length old) (c # cs @ m # r) = drop (length old) (c # cs) @ m # r"
      using drop_prefix_append[OF le, of "m # r"] by simp
    have sub: "sublist old (c # cs)" using True by (rule prefix_imp_sublist)
    have lhs: "Replace_scan old new 1 (c # cs @ m # r)
        = new @ drop (length old) (c # cs) @ m # r"
      using pre assms(2) by (simp add: dr Replace_scan_zero)
    have rhs: "Replace_scan old new 1 (c # cs) = new @ drop (length old) (c # cs)"
      using True assms(2) by (simp add: Replace_scan_zero)
    show ?thesis unfolding append_Cons lhs using sub rhs by simp
  next
    case False
    have nm: "\<not> prefix old (c # cs @ m # r)"
      using False prefix_not_straddling[OF assms(1)] by blast
    have sub: "sublist old (c # cs) \<longleftrightarrow> sublist old cs"
      using False by (simp add: sublist_Cons_right)
    have lhs: "Replace_scan old new 1 (c # cs @ m # r) = c # Replace_scan old new 1 (cs @ m # r)"
      using nm by simp
    have rhs: "Replace_scan old new 1 (c # cs) = c # Replace_scan old new 1 cs"
      using False by simp
    show ?thesis unfolding append_Cons lhs sub Cons.IH using rhs by simp
  qed
qed

lemma Replace_scan_append_last:
  assumes "n < 0" and "u = [] \<or> last u \<notin> set (butlast old)"
  shows "Replace_scan old new n (u @ r) = Replace_scan old new n u @ Replace_scan old new n r"
  using assms
proof (induction "length u" arbitrary: u n rule: less_induct)
  case less
  show ?case
  proof (cases u)
    case Nil
    then show ?thesis by simp
  next
    case (Cons c cs)
    have lastu: "last (c # cs) \<notin> set (butlast old)" using less.prems Cons by simp
    show ?thesis
    proof (cases "old \<noteq> [] \<and> prefix old (c # cs)")
      case True
      let ?rest = "drop (length old) (c # cs)"
      have le: "length old \<le> length (c # cs)" using True by (auto dest: prefix_length_le)
      have pre: "prefix old (c # cs @ r)"
        using True prefix_prefix[of old "c # cs" r] by simp
      have dr: "drop (length old) (c # cs @ r) = ?rest @ r"
        using drop_prefix_append[OF le, of r] by simp
      have short: "length ?rest < length u" using True Cons by (cases old) simp_all
      have "?rest = [] \<or> last ?rest = last (c # cs)"
        by (cases "length old < length (c # cs)") (simp_all only: last_drop drop_eq_Nil not_less, simp_all)
      then have cond: "?rest = [] \<or> last ?rest \<notin> set (butlast old)"
        using lastu by auto
      have ih: "Replace_scan old new (n - 1) (?rest @ r)
          = Replace_scan old new (n - 1) ?rest @ Replace_scan old new (n - 1) r"
        using less.hyps[OF short _ cond, of "n - 1"] less.prems(1) by simp
      have cong: "Replace_scan old new (n - 1) r = Replace_scan old new n r"
        using less.prems by (intro Replace_scan_neg_cong) simp_all
      have lhs: "Replace_scan old new n (c # cs @ r)
          = new @ Replace_scan old new (n - 1) (?rest @ r)"
        using True pre less.prems by (simp add: dr)
      have rhs: "Replace_scan old new n (c # cs) = new @ Replace_scan old new (n - 1) ?rest"
        using True less.prems by simp
      show ?thesis unfolding Cons append_Cons lhs rhs ih cong by simp
    next
      case False
      have nm: "\<not> (old \<noteq> [] \<and> prefix old (c # cs @ r))"
      proof
        assume h: "old \<noteq> [] \<and> prefix old (c # cs @ r)"
        then have "prefix old ((c # cs) @ r)" by simp
        then consider "prefix old (c # cs)" | us where "old = (c # cs) @ us" "prefix us r"
          unfolding prefix_append by blast
        then show False
        proof cases
          case 1
          with h False show False by simp
        next
          case 2
          show False
          proof (cases us)
            case Nil
            with 2 h False show False by simp
          next
            case (Cons x xs)
            then have "butlast old = (c # cs) @ butlast us" using 2(1) by (simp add: butlast_append)
            then have "last (c # cs) \<in> set (butlast old)" by simp
            with lastu show False by simp
          qed
        qed
      qed
      have lhs: "Replace_scan old new n (c # cs @ r) = c # Replace_scan old new n (cs @ r)"
        using nm by auto
      have rhs: "Replace_scan old new n (c # cs) = c # Replace_scan old new n cs"
        using False by auto
      have cond: "cs = [] \<or> last cs \<notin> set (butlast old)" using lastu by auto
      have ih: "Replace_scan old new n (cs @ r)
          = Replace_scan old new n cs @ Replace_scan old new n r"
        using less.hyps[of cs n] Cons less.prems(1) cond by simp
      show ?thesis unfolding Cons append_Cons lhs rhs ih by simp
    qed
  qed
qed

lemma version_stage_keep:
  assumes old: "old = CHR ''$'' # w" "CHR ''$'' \<notin> set w"
    and M: "CHR ''$'' \<notin> set t" and nm: "\<not> prefix old (CHR ''$'' # t @ v)" and n: "n < 0"
  shows "Replace_scan old new n (u @ (CHR ''$'' # t) @ v)
       = Replace_scan old new n u @ (CHR ''$'' # t) @ Replace_scan old new n v"
proof -
  have m: "CHR ''$'' \<notin> set (tl old)" using old by simp
  have "Replace_scan old new n (u @ CHR ''$'' # (t @ v))
      = Replace_scan old new n u @ Replace_scan old new n (CHR ''$'' # (t @ v))"
    using m n by (rule Replace_scan_append_neg)
  moreover have "Replace_scan old new n (CHR ''$'' # (t @ v))
      = CHR ''$'' # Replace_scan old new n (t @ v)"
    using nm by simp
  moreover have "Replace_scan old new n (t @ v) = t @ Replace_scan old new n v"
    by (rule Replace_scan_skip) (use old M in simp_all)
  ultimately show ?thesis by simp
qed

lemma version_stage_hit:
  assumes old: "old = CHR ''$'' # w" "CHR ''$'' \<notin> set w" and n: "n < 0"
  shows "Replace_scan old new n (u @ old @ v)
       = Replace_scan old new n u @ new @ Replace_scan old new n v"
proof -
  have m: "CHR ''$'' \<notin> set (tl old)" using old by simp
  have "Replace_scan old new n (u @ CHR ''$'' # (w @ v))
      = Replace_scan old new n u @ Replace_scan old new n (CHR ''$'' # (w @ v))"
    using m n by (rule Replace_scan_append_neg)
  moreover have "Replace_scan old new n (old @ v) = new @ Replace_scan old new (n - 1) v"
    using n by (intro Replace_scan_first) (simp_all add: old)
  moreover have "Replace_scan old new (n - 1) v = Replace_scan old new n v"
    using n by (intro Replace_scan_neg_cong) simp_all
  ultimately show ?thesis by (simp add: old)
qed

lemma replaceCommandText_stages:
  "replaceCommandText (PipelineStep nm s d ct wh ss)
   = Replace_scan ''$(cat ../../VERSION)'' ''${VERSION}'' (- 1)
       (Replace_scan ''$(cat ../VERSION)'' ''${VERSION}'' (- 1)
         (Replace_scan ''$(cat VERSION)'' ''${VERSION}'' (- 1)
           (Replace_scan ''export VERSION=`cat VERSION` && '' [] 1
             (Replace_scan [CHR 0x5C, CHR ''$''] ''$'' (- 1) s))))"
  by (simp add: replaceCommandText_def Replace_def)

lemma versions_around_text:
  assumes "t \<in> set versionTexts"
  shows "Replace_scan ''$(cat ../../VERSION)'' ''${VERSION}'' (- 1)
           (Replace_scan ''$(cat ../VERSION)'' ''${VERSION}'' (- 1)
             (Replace_scan ''$(cat VERSION)'' ''${VERSION}'' (- 1) (u @ t @ v)))
       = Replace_scan ''$(cat ../../VERSION)'' ''${VERSION}'' (- 1)
           (Replace_scan ''$(cat ../VERSION)'' ''${VERSION}'' (- 1)
             (Replace_scan ''$(cat VERSION)'' ''${VERSION}'' (- 1) u))
         @ ''${VERSION}''
         @ Replace_scan ''$(cat ../../VERSION)'' ''${VERSION}'' (- 1)
             (Replace_scan ''$(cat ../VERSION)'' ''${VERSION}'' (- 1)
               (Replace_scan ''$(cat VERSION)'' ''${VERSION}'' (- 1) v))"
proof -
  define A where "A = ''$(cat VERSION)''"
  define B where "B = ''$(cat ../VERSION)''"
  define C where "C = ''$(cat ../../VERSION)''"
  define N where "N = ''${VERSION}''"
  have A: "A = CHR ''$'' # tl A" "CHR ''$'' \<notin> set (tl A)"
    and B: "B = CHR ''$'' # tl B" "CHR ''$'' \<notin> set (tl B)"
    and C: "C = CHR ''$'' # tl C" "CHR ''$'' \<notin> set (tl C)"
    and N: "N = CHR ''$'' # tl N" "CHR ''$'' \<notin> set (tl N)"
    by (simp_all add: A_def B_def C_def N_def)
  have hitA: "\<And>x y. Replace_scan A N (- 1) (x @ A @ y)
      = Replace_scan A N (- 1) x @ N @ Replace_scan A N (- 1) y"
    by (rule version_stage_hit[OF A]) simp
  have hitB: "\<And>x y. Replace_scan B N (- 1) (x @ B @ y)
      = Replace_scan B N (- 1) x @ N @ Replace_scan B N (- 1) y"
    by (rule version_stage_hit[OF B]) simp
  have hitC: "\<And>x y. Replace_scan C N (- 1) (x @ C @ y)
      = Replace_scan C N (- 1) x @ N @ Replace_scan C N (- 1) y"
    by (rule version_stage_hit[OF C]) simp
  have keep: "Replace_scan old N (- 1) (x @ M @ y)
      = Replace_scan old N (- 1) x @ M @ Replace_scan old N (- 1) y"
    if "old = CHR ''$'' # tl old" "CHR ''$'' \<notin> set (tl old)"
      "M = CHR ''$'' # tl M" "CHR ''$'' \<notin> set (tl M)" "\<not> prefix old (M @ y)"
    for old M x y
  proof -
    have "\<not> prefix old (CHR ''$'' # tl M @ y)" using that(3,5) by (metis append_Cons)
    from version_stage_keep[OF that(1,2) that(4) this, of "- 1" N x]
    show ?thesis using that(3) by (metis neg_less_0_iff_less zero_less_one)
  qed
  have np: "\<And>y. \<not> prefix B (N @ y)" "\<And>y. \<not> prefix C (N @ y)"
    "\<And>y. \<not> prefix A (B @ y)" "\<And>y. \<not> prefix A (C @ y)" "\<And>y. \<not> prefix B (C @ y)"
    by (simp_all add: A_def B_def C_def N_def)
  from assms consider "t = A" | "t = B" | "t = C"
    by (auto simp: versionTexts_def A_def B_def C_def)
  then have "Replace_scan C N (- 1) (Replace_scan B N (- 1) (Replace_scan A N (- 1) (u @ t @ v)))
       = Replace_scan C N (- 1) (Replace_scan B N (- 1) (Replace_scan A N (- 1) u)) @ N
         @ Replace_scan C N (- 1) (Replace_scan B N (- 1) (Replace_scan A N (- 1) v))"
  proof cases
    case 1
    show ?thesis
      unfolding 1 hitA keep[OF B N np(1)] keep[OF C N np(2)] ..
  next
    case 2
    show ?thesis
      unfolding 2 keep[OF A B np(3)] hitB keep[OF C N np(2)] ..
  next
    case 3
    show ?thesis
      unfolding 3 keep[OF A C np(4)] keep[OF B C np(5)] hitC ..
  qed
  then show ?thesis by (simp only: A_def B_def C_def N_def)
qed

lemma versions_around_dollar:
  assumes "\<forall>t \<in> set versionTexts. \<not> prefix (tl t) v"
  shows "Replace_scan ''$(cat ../../VERSION)'' ''${VERSION}'' (- 1)
           (Replace_scan ''$(cat ../VERSION)'' ''${VERSION}'' (- 1)
             (Replace_scan ''$(cat VERSION)'' ''${VERSION}'' (- 1) (u @ ''$'' @ v)))
       = Replace_scan ''$(cat ../../VERSION)'' ''${VERSION}'' (- 1)
           (Replace_scan ''$(cat ../VERSION)'' ''${VERSION}'' (- 1)
             (Replace_scan ''$(cat VERSION)'' ''${VERSION}'' (- 1) u))
         @ ''$''
         @ Replace_scan ''$(cat ../../VERSION)'' ''${VERSION}'' (- 1)
             (Replace_scan ''$(cat ../VERSION)'' ''${VERSION}'' (- 1)
               (Replace_scan ''$(cat VERSION)'' ''${VERSION}'' (- 1) v))"
proof -
  define A where "A = ''$(cat VERSION)''"
  define B where "B = ''$(cat ../VERSION)''"
  define C where "C = ''$(cat ../../VERSION)''"
  define N where "N = ''${VERSION}''"
  have A: "A = CHR ''$'' # tl A" "CHR ''$'' \<notin> set (tl A)"
    and B: "B = CHR ''$'' # tl B" "CHR ''$'' \<notin> set (tl B)"
    and C: "C = CHR ''$'' # tl C" "CHR ''$'' \<notin> set (tl C)"
    and N: "N = CHR ''$'' # tl N"
    by (simp_all add: A_def B_def C_def N_def)
  have v0: "\<not> prefix (tl A) v" "\<not> prefix (tl B) v" "\<not> prefix (tl C) v"
    using assms by (simp_all add: versionTexts_def A_def B_def C_def)
  define v1 where "v1 = Replace_scan A N (- 1) v"
  define v2 where "v2 = Replace_scan B N (- 1) v1"
  have b1: "\<not> prefix (tl B) v1"
    unfolding v1_def using prefix_Replace_scan[OF N B(2)] v0(2) by blast
  have c1: "\<not> prefix (tl C) v1"
    unfolding v1_def using prefix_Replace_scan[OF N C(2)] v0(3) by blast
  have c2: "\<not> prefix (tl C) v2"
    unfolding v2_def using prefix_Replace_scan[OF N C(2)] c1 by blast
  have keep: "Replace_scan old N (- 1) (x @ ''$'' @ y)
      = Replace_scan old N (- 1) x @ ''$'' @ Replace_scan old N (- 1) y"
    if "old = CHR ''$'' # tl old" "CHR ''$'' \<notin> set (tl old)" "\<not> prefix (tl old) y"
    for old x y
  proof -
    have "\<not> prefix old (CHR ''$'' # [] @ y)" using that(1,3) by (metis Cons_prefix_Cons append_Nil)
    from version_stage_keep[OF that(1,2) _ this, of "- 1" N x]
    show ?thesis by simp
  qed
  have "Replace_scan C N (- 1) (Replace_scan B N (- 1) (Replace_scan A N (- 1) (u @ ''$'' @ v)))
       = Replace_scan C N (- 1) (Replace_scan B N (- 1) (Replace_scan A N (- 1) u)) @ ''$''
         @ Replace_scan C N (- 1) (Replace_scan B N (- 1) (Replace_scan A N (- 1) v))"
    unfolding keep[OF A v0(1)] v1_def[symmetric] keep[OF B b1] v2_def[symmetric] keep[OF C c2] ..
  then show ?thesis by (simp only: A_def B_def C_def N_def)
qed

lemma export_stage_around:
  assumes P: "P \<noteq> []" and M: "M = m # t" "m \<notin> set (tl P)" "hd P \<notin> set M"
    and once: "\<not> sublist P u \<or> \<not> sublist P v"
  shows "Replace_scan P new 1 (u @ M @ v)
       = Replace_scan P new 1 u @ M @ Replace_scan P new 1 v"
proof -
  have split: "Replace_scan P new 1 (u @ m # (t @ v))
      = (if sublist P u then Replace_scan P new 1 u @ m # (t @ v)
         else u @ Replace_scan P new 1 (m # (t @ v)))"
    using M(2) P by (rule Replace_scan_append_once)
  have skip: "Replace_scan P new 1 (M @ v) = M @ Replace_scan P new 1 v"
    using P M(3) by (rule Replace_scan_skip)
  show ?thesis
  proof (cases "sublist P u")
    case True
    then have "Replace_scan P new 1 v = v" using once by (simp add: Replace_scan_absent)
    then show ?thesis using split True by (simp add: M(1))
  next
    case False
    then have "Replace_scan P new 1 u = u" by (simp add: Replace_scan_absent)
    then show ?thesis using split False skip by (simp add: M(1))
  qed
qed

lemma unescape_keeps_export_absent:
  assumes "\<not> sublist ''export VERSION=`cat VERSION` && '' s"
  shows "\<not> sublist ''export VERSION=`cat VERSION` && ''
           (Replace_scan [CHR 0x5C, CHR ''$''] ''$'' (- 1) s)"
proof -
  define P where "P = ''export VERSION=`cat VERSION` && ''"
  have P_shape: "P = CHR ''e'' # tl P" "CHR ''$'' \<notin> set (tl P)"
    by (simp_all add: P_def)
  have glue: "\<And>t. \<not> sublist P t \<Longrightarrow> \<not> sublist P (''$'' @ t)"
    by (subst P_shape(1), subst (asm) P_shape(1)) (simp add: sublist_Cons_right)
  have "\<not> sublist P (Replace_scan [CHR 0x5C, CHR ''$''] ''$'' (- 1) s)"
    by (rule Replace_scan_keeps_absent[OF _ P_shape(1) P_shape(2) glue]) (use assms in \<open>simp_all add: P_def\<close>)
  then show ?thesis by (simp add: P_def)
qed

lemma replaceCommandText_identity:
  assumes "\<not> sublist [CHR 0x5C, CHR ''$''] s"
    and "\<not> sublist ''export VERSION=`cat VERSION` && '' s"
    and "\<forall>t \<in> set versionTexts. \<not> sublist t s"
  shows "replaceCommandText (PipelineStep nm s d ct wh ss) = s"
proof -
  have v: "\<not> sublist ''$(cat VERSION)'' s" "\<not> sublist ''$(cat ../VERSION)'' s"
    "\<not> sublist ''$(cat ../../VERSION)'' s"
    using assms(3) by (simp_all add: versionTexts_def)
  show ?thesis
    unfolding replaceCommandText_stages
      Replace_scan_absent[OF assms(1)] Replace_scan_absent[OF assms(2)]
      Replace_scan_absent[OF v(1)] Replace_scan_absent[OF v(2)] Replace_scan_absent[OF v(3)] ..
qed

lemma after_unescape_around_text:
  assumes t: "t \<in> set versionTexts"
    and once: "\<not> sublist ''export VERSION=`cat VERSION` && '' a
             \<or> \<not> sublist ''export VERSION=`cat VERSION` && '' b"
    and r1: "Replace_scan [CHR 0x5C, CHR ''$''] ''$'' (- 1) s
           = Replace_scan [CHR 0x5C, CHR ''$''] ''$'' (- 1) a @ t
             @ Replace_scan [CHR 0x5C, CHR ''$''] ''$'' (- 1) b"
  shows "replaceCommandText (PipelineStep nm s d ct wh ss)
       = replaceCommandText (PipelineStep nm a d ct wh ss) @ ''${VERSION}''
         @ replaceCommandText (PipelineStep nm b d ct wh ss)"
proof -
  define P where "P = ''export VERSION=`cat VERSION` && ''"
  define u where "u = Replace_scan [CHR 0x5C, CHR ''$''] ''$'' (- 1) a"
  define v where "v = Replace_scan [CHR 0x5C, CHR ''$''] ''$'' (- 1) b"
  have once': "\<not> sublist P u \<or> \<not> sublist P v"
    using once unescape_keeps_export_absent unfolding P_def u_def v_def by blast
  have shape: "t = CHR ''$'' # tl t" "CHR ''$'' \<notin> set (tl P)" "hd P \<notin> set t" "P \<noteq> []"
    using t by (auto simp: versionTexts_def P_def)
  have export: "Replace_scan P [] 1 (u @ t @ v)
      = Replace_scan P [] 1 u @ t @ Replace_scan P [] 1 v"
    by (rule export_stage_around[OF shape(4) shape(1) shape(2) shape(3) once'])
  show ?thesis
    unfolding replaceCommandText_stages r1 u_def[symmetric] v_def[symmetric] P_def[symmetric]
      export versions_around_text[OF t] ..
qed

lemma replaceCommandText_version_text:
  assumes t: "t \<in> set versionTexts" and a: "a = [] \<or> last a \<noteq> CHR 0x5C"
    and once: "\<not> sublist ''export VERSION=`cat VERSION` && '' a
             \<or> \<not> sublist ''export VERSION=`cat VERSION` && '' b"
  shows "replaceCommandText (PipelineStep nm (a @ t @ b) d ct wh ss)
       = replaceCommandText (PipelineStep nm a d ct wh ss) @ ''${VERSION}''
         @ replaceCommandText (PipelineStep nm b d ct wh ss)"
proof -
  have "a = [] \<or> last a \<notin> set (butlast [CHR 0x5C, CHR ''$''])" using a by simp
  then have "Replace_scan [CHR 0x5C, CHR ''$''] ''$'' (- 1) (a @ t @ b)
      = Replace_scan [CHR 0x5C, CHR ''$''] ''$'' (- 1) a
        @ Replace_scan [CHR 0x5C, CHR ''$''] ''$'' (- 1) (t @ b)"
    by (intro Replace_scan_append_last) simp_all
  moreover have "Replace_scan [CHR 0x5C, CHR ''$''] ''$'' (- 1) (t @ b)
      = t @ Replace_scan [CHR 0x5C, CHR ''$''] ''$'' (- 1) b"
    by (rule Replace_scan_skip) (use t in \<open>auto simp: versionTexts_def\<close>)
  ultimately show ?thesis
    by (intro after_unescape_around_text[OF t once]) simp
qed

lemma replaceCommandText_escaped_version_text:
  assumes t: "t \<in> set versionTexts"
    and once: "\<not> sublist ''export VERSION=`cat VERSION` && '' a
             \<or> \<not> sublist ''export VERSION=`cat VERSION` && '' b"
  shows "replaceCommandText (PipelineStep nm (a @ CHR 0x5C # t @ b) d ct wh ss)
       = replaceCommandText (PipelineStep nm a d ct wh ss) @ ''${VERSION}''
         @ replaceCommandText (PipelineStep nm b d ct wh ss)"
proof -
  have shape: "t = CHR ''$'' # tl t" "CHR 0x5C \<notin> set (tl t)"
    using t by (auto simp: versionTexts_def)
  have eq: "a @ CHR 0x5C # t @ b = a @ [CHR 0x5C, CHR ''$''] @ (tl t @ b)"
    by (subst shape(1)) simp
  have "Replace_scan [CHR 0x5C, CHR ''$''] ''$'' (- 1) (a @ [CHR 0x5C, CHR ''$''] @ (tl t @ b))
      = Replace_scan [CHR 0x5C, CHR ''$''] ''$'' (- 1) a @ ''$''
        @ Replace_scan [CHR 0x5C, CHR ''$''] ''$'' (- 1) (tl t @ b)"
    by (rule Replace_scan_pair_append) simp_all
  then have "Replace_scan [CHR 0x5C, CHR ''$''] ''$'' (- 1) (a @ CHR 0x5C # t @ b)
      = Replace_scan [CHR 0x5C, CHR ''$''] ''$'' (- 1) a @ ''$''
        @ Replace_scan [CHR 0x5C, CHR ''$''] ''$'' (- 1) (tl t @ b)"
    by (simp only: eq)
  moreover have "Replace_scan [CHR 0x5C, CHR ''$''] ''$'' (- 1) (tl t @ b)
      = tl t @ Replace_scan [CHR 0x5C, CHR ''$''] ''$'' (- 1) b"
    by (rule Replace_scan_skip) (use shape(2) in simp_all)
  moreover have "''$'' @ tl t = t" by (subst (2) shape(1)) simp
  ultimately have "Replace_scan [CHR 0x5C, CHR ''$''] ''$'' (- 1) (a @ CHR 0x5C # t @ b)
      = Replace_scan [CHR 0x5C, CHR ''$''] ''$'' (- 1) a @ t
        @ Replace_scan [CHR 0x5C, CHR ''$''] ''$'' (- 1) b"
    by (metis append.assoc)
  then show ?thesis by (rule after_unescape_around_text[OF t once])
qed

lemma replaceCommandText_escaped_dollar:
  assumes next_text: "\<forall>t \<in> set versionTexts. \<not> prefix (tl t) b"
    and once: "\<not> sublist ''export VERSION=`cat VERSION` && '' b"
  shows "replaceCommandText (PipelineStep nm (a @ [CHR 0x5C, CHR ''$''] @ b) d ct wh ss)
       = replaceCommandText (PipelineStep nm a d ct wh ss) @ ''$''
         @ replaceCommandText (PipelineStep nm b d ct wh ss)"
proof -
  define P where "P = ''export VERSION=`cat VERSION` && ''"
  define u where "u = Replace_scan [CHR 0x5C, CHR ''$''] ''$'' (- 1) a"
  define v where "v = Replace_scan [CHR 0x5C, CHR ''$''] ''$'' (- 1) b"
  have r1: "Replace_scan [CHR 0x5C, CHR ''$''] ''$'' (- 1) (a @ [CHR 0x5C, CHR ''$''] @ b)
      = u @ ''$'' @ v"
    unfolding u_def v_def by (rule Replace_scan_pair_append) simp_all
  have absent: "\<not> sublist P v"
    using once unescape_keeps_export_absent unfolding P_def v_def by blast
  have same: "Replace_scan P [] 1 v = v" using absent by (rule Replace_scan_absent)
  have shape: "''$'' = CHR ''$'' # []" "CHR ''$'' \<notin> set (tl P)" "hd P \<notin> set ''$''" "P \<noteq> []"
    by (simp_all add: P_def)
  have export: "Replace_scan P [] 1 (u @ ''$'' @ v)
      = Replace_scan P [] 1 u @ ''$'' @ Replace_scan P [] 1 v"
    by (rule export_stage_around[OF shape(4) shape(1) shape(2) shape(3)]) (use absent in simp)
  have nt: "\<forall>t \<in> set versionTexts. \<not> prefix (tl t) v"
  proof
    fix t assume t: "t \<in> set versionTexts"
    then have "CHR ''$'' \<notin> set (tl t)" by (auto simp: versionTexts_def)
    from prefix_Replace_scan[OF shape(1) this] next_text t
    show "\<not> prefix (tl t) v" unfolding v_def by blast
  qed
  show ?thesis
    unfolding replaceCommandText_stages r1 u_def[symmetric] v_def[symmetric] P_def[symmetric]
      export same versions_around_dollar[OF nt] ..
qed

text \<open>
  Claim C8. \<open>replaceCommandText\<close> performs the stated rewrites on every step command.
  The two examples of the specification evaluate as stated, and whatever the command,
  none of the three \<open>$(cat ...VERSION)\<close> forms is left in the result. The result is
  pinned down by equations: a command with no escaped dollar, no export prefix and none
  of the three forms is returned as it is; a command that starts with the
  \<open>export VERSION=`cat VERSION` && \<close> prefix (and does not contain it a second time)
  is normalised as its remainder is; an occurrence of one of the three forms becomes
  \<open>${VERSION}\<close>, and so does an occurrence behind an escaped dollar, the text before and
  the text after it being normalised on their own; and an escaped dollar becomes a plain
  one in the same way. The side conditions exclude only what makes the parts interact:
  a backslash just before the form (it would escape its dollar), the export prefix on
  both sides (only its first occurrence is removed), and an escaped dollar whose plain
  form would start one of the three forms.
\<close>

theorem replaceCommandText_rewrites:
  "replaceCommandText (PipelineStep nm ''export VERSION=`cat VERSION` && npm test'' d ct wh ss)
     = ''npm test''
   \<and> replaceCommandText (PipelineStep nm ''echo $(cat VERSION)'' d ct wh ss) = ''echo ${VERSION}''
   \<and> (\<forall>text \<in> set [''$(cat VERSION)'', ''$(cat ../VERSION)'', ''$(cat ../../VERSION)''].
         \<not> sublist text (replaceCommandText step))
   \<and> (\<not> sublist [CHR 0x5C, CHR ''$''] s \<and> \<not> sublist ''export VERSION=`cat VERSION` && '' s
       \<and> (\<forall>text \<in> set [''$(cat VERSION)'', ''$(cat ../VERSION)'', ''$(cat ../../VERSION)''].
             \<not> sublist text s) \<longrightarrow>
        replaceCommandText (PipelineStep nm s d ct wh ss) = s)
   \<and> (\<not> sublist ''export VERSION=`cat VERSION` && '' rest \<longrightarrow>
        replaceCommandText (PipelineStep nm (''export VERSION=`cat VERSION` && '' @ rest) d ct wh ss)
          = replaceCommandText (PipelineStep nm rest d ct wh ss))
   \<and> (t \<in> set [''$(cat VERSION)'', ''$(cat ../VERSION)'', ''$(cat ../../VERSION)'']
       \<and> (a = [] \<or> last a \<noteq> CHR 0x5C)
       \<and> (\<not> sublist ''export VERSION=`cat VERSION` && '' a
          \<or> \<not> sublist ''export VERSION=`cat VERSION` && '' b) \<longrightarrow>
        replaceCommandText (PipelineStep nm (a @ t @ b) d ct wh ss)
          = replaceCommandText (PipelineStep nm a d ct wh ss) @ ''${VERSION}''
            @ replaceCommandText (PipelineStep nm b d ct wh ss))
   \<and> (t \<in> set [''$(cat VERSION)'', ''$(cat ../VERSION)'', ''$(cat ../../VERSION)'']
       \<and> (\<not> sublist ''export VERSION=`cat VERSION` && '' a
          \<or> \<not> sublist ''export VERSION=`cat VERSION` && '' b) \<longrightarrow>
        replaceCommandText (PipelineStep nm (a @ CHR 0x5C # t @ b) d ct wh ss)
          = replaceCommandText (PipelineStep nm a d ct wh ss) @ ''${VERSION}''
            @ replaceCommandText (PipelineStep nm b d ct wh ss))
   \<and> (\<not> prefix ''(cat VERSION)'' b \<and> \<not> prefix ''(cat ../VERSION)'' b
       \<and> \<not> prefix ''(cat ../../VERSION)'' b
       \<and> \<not> sublist ''export VERSION=`cat VERSION` && '' b \<longrightarrow>
        replaceCommandText (PipelineStep nm (a @ [CHR 0x5C, CHR ''$''] @ b) d ct wh ss)
          = replaceCommandText (PipelineStep nm a d ct wh ss) @ ''$''
            @ replaceCommandText (PipelineStep nm b d ct wh ss))"
proof -
  have vt: "set [''$(cat VERSION)'', ''$(cat ../VERSION)'', ''$(cat ../../VERSION)'']
      = set versionTexts"
    by (simp add: versionTexts_def)
  have c1: "replaceCommandText (PipelineStep nm ''export VERSION=`cat VERSION` && npm test'' d ct wh ss)
     = ''npm test''"
    by (rule replaceCommandText_examples)
  have c2: "replaceCommandText (PipelineStep nm ''echo $(cat VERSION)'' d ct wh ss) = ''echo ${VERSION}''"
    by (rule replaceCommandText_examples)
  have c3: "\<forall>text \<in> set [''$(cat VERSION)'', ''$(cat ../VERSION)'', ''$(cat ../../VERSION)''].
         \<not> sublist text (replaceCommandText step)"
    using replaceCommandText_no_version_text[where step = step] vt by blast
  have c4: "\<not> sublist [CHR 0x5C, CHR ''$''] s \<and> \<not> sublist ''export VERSION=`cat VERSION` && '' s
       \<and> (\<forall>text \<in> set [''$(cat VERSION)'', ''$(cat ../VERSION)'', ''$(cat ../../VERSION)''].
             \<not> sublist text s) \<longrightarrow>
        replaceCommandText (PipelineStep nm s d ct wh ss) = s"
    using replaceCommandText_identity[where s = s and nm = nm and d = d and ct = ct and wh = wh and ss = ss] vt by blast
  have c5: "\<not> sublist ''export VERSION=`cat VERSION` && '' rest \<longrightarrow>
        replaceCommandText (PipelineStep nm (''export VERSION=`cat VERSION` && '' @ rest) d ct wh ss)
          = replaceCommandText (PipelineStep nm rest d ct wh ss)"
    using replaceCommandText_removes_prefix[where rest = rest and nm = nm and d = d and ct = ct and wh = wh and ss = ss] by blast
  have c6: "t \<in> set [''$(cat VERSION)'', ''$(cat ../VERSION)'', ''$(cat ../../VERSION)'']
       \<and> (a = [] \<or> last a \<noteq> CHR 0x5C)
       \<and> (\<not> sublist ''export VERSION=`cat VERSION` && '' a
          \<or> \<not> sublist ''export VERSION=`cat VERSION` && '' b) \<longrightarrow>
        replaceCommandText (PipelineStep nm (a @ t @ b) d ct wh ss)
          = replaceCommandText (PipelineStep nm a d ct wh ss) @ ''${VERSION}''
            @ replaceCommandText (PipelineStep nm b d ct wh ss)"
    using replaceCommandText_version_text[where t = t and a = a and b = b and nm = nm and d = d and ct = ct and wh = wh and ss = ss] vt by blast
  have c7: "t \<in> set [''$(cat VERSION)'', ''$(cat ../VERSION)'', ''$(cat ../../VERSION)'']
       \<and> (\<not> sublist ''export VERSION=`cat VERSION` && '' a
          \<or> \<not> sublist ''export VERSION=`cat VERSION` && '' b) \<longrightarrow>
        replaceCommandText (PipelineStep nm (a @ CHR 0x5C # t @ b) d ct wh ss)
          = replaceCommandText (PipelineStep nm a d ct wh ss) @ ''${VERSION}''
            @ replaceCommandText (PipelineStep nm b d ct wh ss)"
    using replaceCommandText_escaped_version_text[where t = t and a = a and b = b and nm = nm and d = d and ct = ct and wh = wh and ss = ss] vt by blast
  have nt: "(\<forall>t \<in> set versionTexts. \<not> prefix (tl t) b)
      \<longleftrightarrow> \<not> prefix ''(cat VERSION)'' b \<and> \<not> prefix ''(cat ../VERSION)'' b
          \<and> \<not> prefix ''(cat ../../VERSION)'' b"
    by (simp add: versionTexts_def)
  have c8: "\<not> prefix ''(cat VERSION)'' b \<and> \<not> prefix ''(cat ../VERSION)'' b
       \<and> \<not> prefix ''(cat ../../VERSION)'' b
       \<and> \<not> sublist ''export VERSION=`cat VERSION` && '' b \<longrightarrow>
        replaceCommandText (PipelineStep nm (a @ [CHR 0x5C, CHR ''$''] @ b) d ct wh ss)
          = replaceCommandText (PipelineStep nm a d ct wh ss) @ ''$''
            @ replaceCommandText (PipelineStep nm b d ct wh ss)"
    using replaceCommandText_escaped_dollar[where a = a and b = b and nm = nm and d = d and ct = ct and wh = wh and ss = ss] nt by blast
  from c1 c2 c3 c4 c5 c6 c7 c8 show ?thesis by blast
qed

theorem replaceCommandText_rewrites_witness:
  "\<not> sublist [CHR 0x5C, CHR ''$''] ''mvn deploy''
   \<and> \<not> sublist ''export VERSION=`cat VERSION` && '' ''mvn deploy''
   \<and> \<not> sublist ''$(cat VERSION)'' ''mvn deploy'' \<and> \<not> sublist ''$(cat ../VERSION)'' ''mvn deploy''
   \<and> \<not> sublist ''$(cat ../../VERSION)'' ''mvn deploy''
   \<and> replaceCommandText (PipelineStep ''s'' ''mvn deploy'' [] [] [] []) = ''mvn deploy''
   \<and> replaceCommandText (PipelineStep ''s'' (''export VERSION=`cat VERSION` && '' @ ''mvn deploy'') [] [] [] [])
       = ''mvn deploy''
   \<and> last ''helm upgrade --version '' \<noteq> CHR 0x5C
   \<and> \<not> sublist ''export VERSION=`cat VERSION` && '' '' --install''
   \<and> replaceCommandText (PipelineStep ''s''
         (''helm upgrade --version '' @ ''$(cat ../VERSION)'' @ '' --install'') [] [] [] [])
       = ''helm upgrade --version ${VERSION} --install''
   \<and> \<not> sublist ''export VERSION=`cat VERSION` && '' ''echo ''
   \<and> replaceCommandText (PipelineStep ''s''
         (''echo '' @ CHR 0x5C # ''$(cat ../../VERSION)'' @ '' > v'') [] [] [] [])
       = ''echo ${VERSION} > v''
   \<and> \<not> prefix ''(cat VERSION)'' ''HOME'' \<and> \<not> prefix ''(cat ../VERSION)'' ''HOME''
   \<and> \<not> prefix ''(cat ../../VERSION)'' ''HOME''
   \<and> \<not> sublist ''export VERSION=`cat VERSION` && '' ''HOME''
   \<and> replaceCommandText (PipelineStep ''s'' (''echo '' @ [CHR 0x5C, CHR ''$''] @ ''HOME'') [] [] [] [])
       = ''echo $HOME''
   \<and> \<not> sublist ''$(cat ../VERSION)''
         (replaceCommandText (PipelineStep ''s'' ''helm upgrade --version $(cat ../VERSION)'' [] [] [] []))"
proof -
  let ?P = "''export VERSION=`cat VERSION` && ''"
  have plain: "\<not> sublist [CHR 0x5C, CHR ''$''] ''mvn deploy''"
    "\<not> sublist ?P ''mvn deploy''"
    "\<not> sublist ''$(cat VERSION)'' ''mvn deploy''" "\<not> sublist ''$(cat ../VERSION)'' ''mvn deploy''"
    "\<not> sublist ''$(cat ../../VERSION)'' ''mvn deploy''"
    by (simp_all add: sublist_Cons_right)
  have noP: "\<not> sublist ?P '' --install''" "\<not> sublist ?P ''echo ''" "\<not> sublist ?P ''HOME''"
    by (simp_all add: sublist_Cons_right)
  have la: "last ''helm upgrade --version '' \<noteq> CHR 0x5C" by simp
  have np: "\<not> prefix ''(cat VERSION)'' ''HOME''" "\<not> prefix ''(cat ../VERSION)'' ''HOME''"
    "\<not> prefix ''(cat ../../VERSION)'' ''HOME''"
    by simp_all
  have mem: "''$(cat ../VERSION)'' \<in> set [''$(cat VERSION)'', ''$(cat ../VERSION)'', ''$(cat ../../VERSION)'']"
    "''$(cat ../../VERSION)'' \<in> set [''$(cat VERSION)'', ''$(cat ../VERSION)'', ''$(cat ../../VERSION)'']"
    by simp_all
  have p: "replaceCommandText (PipelineStep ''s'' ''echo '' [] [] [] []) = ''echo ''"
    "replaceCommandText (PipelineStep ''s'' ''HOME'' [] [] [] []) = ''HOME''"
    "replaceCommandText (PipelineStep ''s'' ''helm upgrade --version '' [] [] [] [])
       = ''helm upgrade --version ''"
    "replaceCommandText (PipelineStep ''s'' '' --install'' [] [] [] []) = '' --install''"
    "replaceCommandText (PipelineStep ''s'' '' > v'' [] [] [] []) = '' > v''"
    by (simp_all add: replaceCommandText_def Replace_def)
  note r1 = replaceCommandText_rewrites[where nm = "''s''" and d = "[]" and ct = "[]" and wh = "[]"
      and ss = "[]" and s = "''mvn deploy''" and rest = "''mvn deploy''"
      and step = "PipelineStep ''s'' ''helm upgrade --version $(cat ../VERSION)'' [] [] [] []"
      and t = "''$(cat ../VERSION)''" and a = "''helm upgrade --version ''" and b = "'' --install''"]
  note r2 = replaceCommandText_rewrites[where nm = "''s''" and d = "[]" and ct = "[]" and wh = "[]"
      and ss = "[]" and t = "''$(cat ../../VERSION)''" and a = "''echo ''" and b = "'' > v''"]
  note r3 = replaceCommandText_rewrites[where nm = "''s''" and d = "[]" and ct = "[]" and wh = "[]"
      and ss = "[]" and a = "''echo ''" and b = "''HOME''"]
  from r1 plain have 1: "replaceCommandText (PipelineStep ''s'' ''mvn deploy'' [] [] [] []) = ''mvn deploy''"
    by simp
  from r1 plain(2) have "replaceCommandText (PipelineStep ''s'' (?P @ ''mvn deploy'') [] [] [] [])
       = replaceCommandText (PipelineStep ''s'' ''mvn deploy'' [] [] [] [])"
    by blast
  with 1 have 2: "replaceCommandText (PipelineStep ''s'' (?P @ ''mvn deploy'') [] [] [] [])
       = ''mvn deploy''"
    by simp
  from r1 mem(1) la noP(1) have "replaceCommandText (PipelineStep ''s''
         (''helm upgrade --version '' @ ''$(cat ../VERSION)'' @ '' --install'') [] [] [] [])
       = replaceCommandText (PipelineStep ''s'' ''helm upgrade --version '' [] [] [] [])
         @ ''${VERSION}'' @ replaceCommandText (PipelineStep ''s'' '' --install'' [] [] [] [])"
    by blast
  then have 3: "replaceCommandText (PipelineStep ''s''
         (''helm upgrade --version '' @ ''$(cat ../VERSION)'' @ '' --install'') [] [] [] [])
       = ''helm upgrade --version ${VERSION} --install''"
    unfolding p by simp
  from r2 mem(2) noP(2) have "replaceCommandText (PipelineStep ''s''
         (''echo '' @ CHR 0x5C # ''$(cat ../../VERSION)'' @ '' > v'') [] [] [] [])
       = replaceCommandText (PipelineStep ''s'' ''echo '' [] [] [] [])
         @ ''${VERSION}'' @ replaceCommandText (PipelineStep ''s'' '' > v'' [] [] [] [])"
    by blast
  then have 4: "replaceCommandText (PipelineStep ''s''
         (''echo '' @ CHR 0x5C # ''$(cat ../../VERSION)'' @ '' > v'') [] [] [] [])
       = ''echo ${VERSION} > v''"
    unfolding p by simp
  from r3 np noP(3) have "replaceCommandText (PipelineStep ''s'' (''echo '' @ [CHR 0x5C, CHR ''$''] @ ''HOME'') [] [] [] [])
       = replaceCommandText (PipelineStep ''s'' ''echo '' [] [] [] []) @ ''$''
            @ replaceCommandText (PipelineStep ''s'' ''HOME'' [] [] [] [])"
    by blast
  then have 5: "replaceCommandText (PipelineStep ''s'' (''echo '' @ [CHR 0x5C, CHR ''$''] @ ''HOME'') [] [] [] [])
       = ''echo $HOME''"
    unfolding p by simp
  from r1 have 6: "\<not> sublist ''$(cat ../VERSION)''
         (replaceCommandText (PipelineStep ''s'' ''helm upgrade --version $(cat ../VERSION)'' [] [] [] []))"
    by simp
  from plain 1 2 la noP 3 4 np 5 6 show ?thesis by blast
qed

section \<open>The no-apply mode\<close>

lemma applyPipeline_resources_NoApply:
  "NoApply opts \<Longrightarrow>
   applyPipeline_resources env ns gi branch resources resourceBindings acc (opts, w)
   = (if None \<in> set resources then Inl (Panic ''nil pointer dereference'')
      else Inr (resourceBindings @ List.map_filter (map_option resourceBinding) resources,
                acc @ resources, opts, w))"
proof (induction resources arbitrary: resourceBindings acc)
  case Nil
  then show ?case by (simp add: List.map_filter_simps)
next
  case (Cons r resources)
  then show ?case
    by (cases r) (simp_all add: List.map_filter_simps resourceBinding_def[symmetric])
qed

lemma applyPipeline_tasks_NoApply:
  "NoApply opts \<Longrightarrow>
   applyPipeline_tasks env ns tasks acc (opts, w)
   = Inr (acc @ map (\<lambda>task. task\<lparr>t_Namespace := ns\<rparr>) tasks, opts, w)"
  by (induction tasks arbitrary: acc) simp_all

text \<open>
  Claim C9, as stated: with the no-apply flag the Results are populated exactly as when
  apply is enabled and succeeds. The structure record shows the difference: inside the
  apply branch the code stamps the structure with the run's name, the pipeline reference
  and the owner reference before it creates it, and the Results keep the stamped
  structure; the no-apply mode hands the structure over as it came.
\<close>

theorem applyPipeline_NoApply_counterexample:
  "structureOf (applyPipeline exampleEnv (exampleOptions\<lparr>NoApply := True\<rparr>) examplePipeline
       [exampleTask] [Some exampleResource] (Some exampleStructure) (Some exampleGit) ''master''
       exampleWorld)
     = Some exampleStructure
   \<and> structureOf (applyPipeline exampleEnv (exampleOptions\<lparr>NoApply := False\<rparr>) examplePipeline
       [exampleTask] [Some exampleResource] (Some exampleStructure) (Some exampleGit) ''master''
       exampleWorld)
     = Some \<lparr>st_Name = ''acme-myapp-master'', st_PipelineRef = Some ''acme-myapp-master'',
             st_PipelineRunRef = Some ''acme-myapp-master'',
             st_OwnerReferences = [\<lparr>or_APIVersion = ''tekton.dev/v1alpha1'', or_Kind = ''Pipeline'',
                                     or_Name = ''acme-myapp-master'', or_UID = []\<rparr>]\<rparr>
   \<and> structureOf (applyPipeline exampleEnv (exampleOptions\<lparr>NoApply := True\<rparr>) examplePipeline
       [exampleTask] [Some exampleResource] (Some exampleStructure) (Some exampleGit) ''master''
       exampleWorld)
     \<noteq> structureOf (applyPipeline exampleEnv (exampleOptions\<lparr>NoApply := False\<rparr>) examplePipeline
       [exampleTask] [Some exampleResource] (Some exampleStructure) (Some exampleGit) ''master''
       exampleWorld)"
  by code_simp

text \<open>
  Claim C9, amended. With the no-apply flag set, and the namespace and the client at hand,
  \<open>applyPipeline\<close> on any pipeline, task list, resource list and structure either
  panics or leaves the world (the cluster) and the log as they were. It panics exactly
  when the resource list has a \<^verbatim>\<open>nil\<close> entry, whose name is read before the flag is
  tested (\<open>generatePipeline\<close> passes such an entry on the declarative path when no
  HTTPS URL of the repository is known). Otherwise it succeeds and populates the Results from the
  objects in memory: the tasks with their namespace set, the pipeline with its namespace
  set and its API version and kind defaulted, the resources, the run built from them
  (one binding for each resource, in order), and the structure as it was given. What only
  applying adds (the pipeline as the cluster returns it, the stamping of the structure) is
  not in them.
\<close>

theorem applyPipeline_NoApply:
  assumes "NoApply opts" and "KubeClientAndDevNamespace env w = Inr ns"
    and "TektonClient env w = None"
  shows "applyPipeline env opts pipeline tasks resources structure gi branch w =
     (if None \<in> set resources then Inl (Panic ''nil pointer dereference'')
      else Inr (opts\<lparr>Results := (Results opts)
            \<lparr>res_Tasks := map (\<lambda>task. task\<lparr>t_Namespace := ns\<rparr>) tasks,
             res_Pipeline := Some (pipeline
               \<lparr>pl_Namespace := ns,
                pl_APIVersion := (if pl_APIVersion pipeline = [] then TektonAPIVersion env
                                  else pl_APIVersion pipeline),
                pl_Kind := (if pl_Kind pipeline = [] then ''Pipeline'' else pl_Kind pipeline)\<rparr>),
             res_Resources := resources,
             res_PipelineRun := Some
               \<lparr>run_APIVersion = TektonAPIVersion env, run_Kind = ''PipelineRun'',
                run_Name = pl_Name pipeline,
                run_OwnerReferences =
                  [\<lparr>or_APIVersion = TektonAPIVersion env, or_Kind = ''Pipeline'',
                    or_Name = pl_Name pipeline, or_UID = pl_UID pipeline\<rparr>],
                run_Labels = labels opts,
                run_ServiceAccount = ServiceAccount opts,
                run_Trigger = Trigger opts,
                run_PipelineRefName = pl_Name pipeline,
                run_PipelineRefAPIVersion =
                  (if pl_APIVersion pipeline = [] then TektonAPIVersion env
                   else pl_APIVersion pipeline),
                run_Resources = List.map_filter (map_option resourceBinding) resources,
                run_Params = res_PipelineParams (Results opts)\<rparr>,
             res_Structure := structure\<rparr>\<rparr>, w))"
  using assms
  by (simp add: applyPipeline_def applyPipeline_resources_NoApply applyPipeline_tasks_NoApply
        pipelineOwnerReference_def Let_def)

theorem applyPipeline_NoApply_witness:
  "NoApply (exampleOptions\<lparr>NoApply := True\<rparr>)
   \<and> KubeClientAndDevNamespace exampleEnv exampleWorld = Inr ''jx''
   \<and> TektonClient exampleEnv exampleWorld = None
   \<and> worldOf (applyPipeline exampleEnv (exampleOptions\<lparr>NoApply := True\<rparr>) examplePipeline
         [exampleTask] [Some exampleResource] (Some exampleStructure) (Some exampleGit)
         ''master'' exampleWorld) = Some exampleWorld
   \<and> map_option (\<lambda>opts. map t_Namespace (res_Tasks (Results opts)))
        (optionsOf (applyPipeline exampleEnv (exampleOptions\<lparr>NoApply := True\<rparr>) examplePipeline
         [exampleTask] [Some exampleResource] (Some exampleStructure) (Some exampleGit)
         ''master'' exampleWorld)) = Some [''jx'']
   \<and> map_option (\<lambda>opts. map_option run_Resources (res_PipelineRun (Results opts)))
        (optionsOf (applyPipeline exampleEnv (exampleOptions\<lparr>NoApply := True\<rparr>) examplePipeline
         [exampleTask] [Some exampleResource] (Some exampleStructure) (Some exampleGit)
         ''master'' exampleWorld))
      = Some (Some [\<lparr>rb_Name = ''acme-myapp-master'', rb_RefName = ''acme-myapp-master'',
                      rb_RefAPIVersion = ''tekton.dev/v1alpha1''\<rparr>])
   \<and> failure (applyPipeline exampleEnv (exampleOptions\<lparr>NoApply := True\<rparr>) examplePipeline
         [exampleTask] [None, Some exampleResource] (Some exampleStructure) (Some exampleGit)
         ''master'' exampleWorld) = Some (Panic ''nil pointer dereference'')"
proof -
  have h: "NoApply (exampleOptions\<lparr>NoApply := True\<rparr>)"
    "KubeClientAndDevNamespace exampleEnv exampleWorld = Inr ''jx''"
    "TektonClient exampleEnv exampleWorld = None"
    by (simp_all add: exampleEnv_def)
  note r = applyPipeline_NoApply[OF h, of examplePipeline "[exampleTask]" "[Some exampleResource]"
      "Some exampleStructure" "Some exampleGit" "''master''"]
  note p = applyPipeline_NoApply[OF h, of examplePipeline "[exampleTask]"
      "[None, Some exampleResource]" "Some exampleStructure" "Some exampleGit" "''master''"]
  show ?thesis
    using h r p
    by (simp add: worldOf_def optionsOf_def failure_def exampleTask_def exampleResource_def
          resourceBinding_def List.map_filter_simps)
qed

section \<open>The git credentials step of release pipelines\<close>









end
